theory Spec2Isabelle
  imports Main "HOL-Library.Word" "HOL-Library.Sublist"
begin

unbundle bit_operations_syntax

section \<open>The mustache parser of \<open>mustache_parser.h\<close>\<close>

text \<open>
  A shallow embedding of the template loader (\<open>mustache_load\<close>), of the instruction
  interpreter (\<open>mustache_build\<close>) and of the callback helpers. Memory is a list of
  bytes (\<open>char\<close> is an 8-bit byte), a pointer into a buffer is its index, the
  \<open>uint32_t\<close> and \<open>uint16_t\<close> fields are words.
\<close>

subsection \<open>Types\<close>

type_synonym u8 = "8 word"
type_synonym u16 = "16 word"
type_synonym u32 = "32 word"

datatype mustache_error_en =
    MUSTACHE_OK
  | MUSTACHE_ERR_TOO_DEEP
  | MUSTACHE_ERR_CLOSURE_MISMATCH
  | MUSTACHE_ERR_FILE_NOT_FOUND
  | MUSTACHE_ERR_FILE_TOO_BIG
  | MUSTACHE_ERR_FILE_NAME_TOO_LONG
  | MUSTACHE_ERR_FILE_NAME_TOO_SHORT
  | MUSTACHE_ERR_EMPTY_TEMPLATE
  | MUSTACHE_ERR_DELIMITER_TOO_LONG
  | MUSTACHE_ERR_NAME_TOO_LONG
  | MUSTACHE_ERR_UNKNOWN
  | MUSTACHE_ERR_USER_ERROR

datatype instruction_en =
    MUSTACHE_WRITE_TEXT
  | MUSTACHE_WRITE_ARG
  | MUSTACHE_WRITE_ARG_UNESCAPED
  | MUSTACHE_SECTION_START
  | MUSTACHE_SECTION_START_INV
  | MUSTACHE_SECTION_END
  | MUSTACHE_SECTION_GOTO

text \<open>
  \<open>mustache__instruction_s\<close>: the tag and the \<open>data\<close> payload. The payload fields
  \<open>data.end\<close>, \<open>data.len\<close>, ... are \<open>d_end\<close>, \<open>d_len\<close>, ... here.
\<close>

record mustache__instruction_s =
  instruction :: instruction_en
  d_end :: u32
  d_len :: u32
  d_name_pos :: u32
  d_name_len :: u16
  d_offset :: u16

text \<open>A designated initialiser sets the fields it names and zeroes the others.\<close>

definition inst0 :: "instruction_en \<Rightarrow> mustache__instruction_s" where
  "inst0 t = \<lparr>instruction = t, d_end = 0, d_len = 0, d_name_pos = 0,
              d_name_len = 0, d_offset = 0\<rparr>"

text \<open>
  \<open>mustache_s\<close> with its two trailing segments: the header's \<open>intruction_count\<close> is
  the length of \<open>instructions\<close>, its \<open>data_length\<close> the length of \<open>data_seg\<close>.
\<close>

record mustache_s =
  instructions :: "mustache__instruction_s list"
  data_seg :: string

subsection \<open>The data segment's template header\<close>

text \<open>\<open>mustache__data_segment_s\<close>; the field \<open>next\<close> is \<open>next_pos\<close> here.\<close>

record mustache__data_segment_s =
  filename :: string
  inst_start :: u32
  next_pos :: u32
  filename_len :: u16
  path_len :: u16

definition NUL :: char where
  "NUL = CHR 0x00"

text \<open>\<open>0xFF & x\<close> stored into a byte.\<close>

definition byte32 :: "u32 \<Rightarrow> char" where
  "byte32 x = char_of (unat (x AND 0xFF))"

definition byte16 :: "u16 \<Rightarrow> char" where
  "byte16 x = char_of (unat (x AND 0xFF))"

text \<open>
  \<open>mustache__data_segment_write\<close>: the bytes written at \<open>dest\<close>; their number,
  \<open>13 + filename_len\<close>, is what the function returns. \<open>memcpy\<close> copies
  \<open>filename_len\<close> bytes of the name.
\<close>

definition mustache__data_segment_write :: "mustache__data_segment_s \<Rightarrow> string" where
  "mustache__data_segment_write seg =
     [ byte32 (inst_start seg),
       byte32 (drop_bit 1 (inst_start seg)),
       byte32 (drop_bit 2 (inst_start seg)),
       byte32 (drop_bit 3 (inst_start seg)),
       byte32 (next_pos seg),
       byte32 (drop_bit 1 (next_pos seg)),
       byte32 (drop_bit 2 (next_pos seg)),
       byte32 (drop_bit 3 (next_pos seg)),
       byte16 (filename_len seg),
       byte16 (drop_bit 1 (filename_len seg)),
       byte16 (path_len seg),
       byte16 (drop_bit 1 (path_len seg)) ]
     @ take (unat (filename_len seg)) (filename seg) @ [NUL]"

definition mustache__data_segment_length :: "nat \<Rightarrow> nat" where
  "mustache__data_segment_length name_len = 13 + name_len"

text \<open>A byte of a buffer; the byte one past the contents is the terminating NUL.\<close>

definition byte_at :: "string \<Rightarrow> nat \<Rightarrow> char" where
  "byte_at d i = (if i < length d then d ! i else NUL)"

definition rd32 :: "string \<Rightarrow> nat \<Rightarrow> u32" where
  "rd32 d i = of_char (byte_at d i)"

definition rd16 :: "string \<Rightarrow> nat \<Rightarrow> u16" where
  "rd16 d i = of_char (byte_at d i)"

text \<open>
  \<open>mustache__data_segment_read\<close> at the bytes \<open>d\<close>: \<open>filename\<close> points at byte 12 and
  is read by its users for \<open>filename_len\<close> or \<open>path_len\<close> bytes.
\<close>

definition mustache__data_segment_read :: "string \<Rightarrow> mustache__data_segment_s" where
  "mustache__data_segment_read d =
     \<lparr> filename = drop 12 d,
       inst_start = rd32 d 0 OR push_bit 1 (rd32 d 1) OR push_bit 2 (rd32 d 2)
                    OR push_bit 3 (rd32 d 3),
       next_pos = rd32 d 4 OR push_bit 1 (rd32 d 5) OR push_bit 2 (rd32 d 6)
                  OR push_bit 3 (rd32 d 7),
       filename_len = rd16 d 8 OR push_bit 1 (rd16 d 9),
       path_len = rd16 d 10 OR push_bit 1 (rd16 d 11) \<rparr>"


subsection \<open>The renderer's types\<close>

definition MUSTACHE_NESTING_LIMIT :: nat where
  "MUSTACHE_NESTING_LIMIT = 96"

text \<open>
  \<open>int\<close> and \<open>int32_t\<close> return values, in two's complement: \<open>- 1\<close> is the word
  \<open>0xFFFFFFFF\<close>, and the cast \<open>(uint32_t)val\<close> is the identity.
\<close>

type_synonym int32 = "32 word"

text \<open>\<open>mustache_section_s\<close>: the two opaque \<open>void *\<close> of the client, of a type \<open>'u\<close>.\<close>

record 'u mustache_section_s =
  udata1 :: 'u
  udata2 :: 'u

text \<open>
  \<open>mustache__section_stack_frame_s\<close>; the fields \<open>end\<close> and \<open>index\<close> are
  \<open>f_end\<close> and \<open>f_index\<close> here.
\<close>

record 'u mustache__section_stack_frame_s =
  sec :: "'u mustache_section_s"
  start :: u32
  f_end :: u32
  f_index :: u32
  count :: u32
  frame :: u16

text \<open>
  \<open>mustache__builder_stack_s\<close>; the fields \<open>data\<close>, \<open>index\<close> and \<open>stack\<close> are
  \<open>b_data\<close>, \<open>b_index\<close> and \<open>b_stack\<close> here. \<open>b_stack\<close> has
  \<open>MUSTACHE_NESTING_LIMIT\<close> frames.
\<close>

record 'u mustache__builder_stack_s =
  b_data :: mustache_s
  pos :: u32
  b_index :: u16
  b_stack :: "'u mustache__section_stack_frame_s list"

subsection \<open>Callback helpers\<close>

text \<open>\<open>MUSTACH2INSTRUCTIONS(s->data) + s->pos\<close>, when it is inside the instruction array.\<close>

definition inst_at :: "mustache_s \<Rightarrow> u32 \<Rightarrow> mustache__instruction_s option" where
  "inst_at m p =
     (if unat p < length (instructions m) then Some (instructions m ! unat p) else None)"

text \<open>The bytes at \<open>data + name_pos\<close>, \<open>name_len\<close> of them.\<close>

definition name_bytes :: "mustache_s \<Rightarrow> mustache__instruction_s \<Rightarrow> string" where
  "name_bytes m i = take (unat (d_name_len i)) (drop (unat (d_name_pos i)) (data_seg m))"

text \<open>
  The result of \<open>mustache_section_text\<close>: the pointer returned, as an offset into the data
  segment (\<open>None\<close> is \<open>NULL\<close>), with the value stored in \<open>*p_len\<close>; or the store
  through a \<open>NULL\<close> \<open>p_len\<close>, which is undefined behaviour; or the read of an
  instruction past the instruction array.
\<close>

datatype section_text_result =
    Text_returned "nat option" nat
  | Text_null_store
  | Text_out_of_bounds

text \<open>
  \<open>mustache_section_text(section, p_len)\<close> for a \<open>section\<close> of the builder stack \<open>s\<close>
  (\<open>Some\<close> of its frame's position in the stack, \<open>None\<close> for \<open>NULL\<close>);
  \<open>p_len\<close> is \<open>True\<close> for a pointer that is not \<open>NULL\<close>. The label \<open>error\<close>
  stores through \<open>p_len\<close> whichever test sent it there.
\<close>

definition section_text_error :: "bool \<Rightarrow> section_text_result" where
  "section_text_error p_len = (if p_len then Text_returned None 0 else Text_null_store)"

definition mustache_section_text ::
  "'u mustache__builder_stack_s \<Rightarrow> nat option \<Rightarrow> bool \<Rightarrow> section_text_result" where
  "mustache_section_text s section p_len =
     (if section = None \<or> \<not> p_len then section_text_error p_len
      else case inst_at (b_data s) (pos s) of
        None \<Rightarrow> Text_out_of_bounds
      | Some inst \<Rightarrow>
          if instruction inst \<noteq> MUSTACHE_SECTION_START then section_text_error p_len
          else Text_returned (Some (unat (d_name_pos inst) + unat (d_offset inst)))
                 (unat (d_len inst)))"

text \<open>
  \<open>mustache_section_parent\<close> for the frame at position \<open>i\<close> of the stack: the position
  of the nearest frame below whose \<open>udata\<close> differ, \<open>None\<close> for \<open>NULL\<close>.
\<close>

fun section_parent_from ::
  "'u mustache__section_stack_frame_s list \<Rightarrow> 'u mustache_section_s \<Rightarrow> nat \<Rightarrow> nat option" where
  "section_parent_from st tmp 0 = None"
| "section_parent_from st tmp (Suc j) =
     (if udata1 tmp \<noteq> udata1 (sec (st ! j)) \<or> udata2 tmp \<noteq> udata2 (sec (st ! j))
      then Some j else section_parent_from st tmp j)"

definition mustache_section_parent ::
  "'u mustache__builder_stack_s \<Rightarrow> nat \<Rightarrow> nat option" where
  "mustache_section_parent s i = section_parent_from (b_stack s) (sec (b_stack s ! i)) i"

subsection \<open>The client callbacks\<close>

text \<open>
  What a callback can read through its argument \<open>section\<close>, the address of
  \<open>s.stack[s.index].sec\<close>: the \<open>udata\<close> of the frames from the root frame (first)
  to its own (last), which \<open>*section\<close> and \<open>mustache_section_parent\<close> give it, and
  the bytes \<open>mustache_section_text(section, &len)\<close> points to, if it does not return
  \<open>NULL\<close>. The other fields of the frames and of the builder stack belong to the
  renderer.
\<close>

record 'u section_view =
  view_secs :: "'u mustache_section_s list"
  view_text :: "string option"

definition callback_view :: "'u mustache__builder_stack_s \<Rightarrow> 'u section_view" where
  "callback_view s =
     \<lparr>view_secs = map sec (take (unat (b_index s) + 1) (b_stack s)),
      view_text =
        (case mustache_section_text s (Some (unat (b_index s))) True of
           Text_returned (Some p) n \<Rightarrow> Some (take n (drop p (data_seg (b_data s))))
         | _ \<Rightarrow> None)\<rparr>"

text \<open>
  The client callbacks. \<open>name\<close> (or \<open>data\<close>) is passed as the bytes it points to, as
  far as the template's data reaches, with its length. A callback returns its return
  value, the contents it leaves in \<open>*section\<close>, and the client's own state \<open>'h\<close>,
  which it may read and change.
\<close>

record ('u, 'h) mustache_callbacks =
  mustache_on_arg ::
    "'u section_view \<Rightarrow> string \<Rightarrow> u32 \<Rightarrow> u8 \<Rightarrow> 'h
       \<Rightarrow> int32 \<times> 'u mustache_section_s \<times> 'h"
  mustache_on_text ::
    "'u section_view \<Rightarrow> string \<Rightarrow> u32 \<Rightarrow> 'h
       \<Rightarrow> int32 \<times> 'u mustache_section_s \<times> 'h"
  mustache_on_section_test ::
    "'u section_view \<Rightarrow> string \<Rightarrow> u32 \<Rightarrow> u8 \<Rightarrow> 'h
       \<Rightarrow> int32 \<times> 'u mustache_section_s \<times> 'h"
  mustache_on_section_start ::
    "'u section_view \<Rightarrow> string \<Rightarrow> u32 \<Rightarrow> u32 \<Rightarrow> 'h
       \<Rightarrow> int32 \<times> 'u mustache_section_s \<times> 'h"
  mustache_on_formatting_error :: "'u \<Rightarrow> 'u \<Rightarrow> 'h \<Rightarrow> 'h"

subsection \<open>\<open>mustache_build\<close>\<close>

text \<open>
  What one turn of the \<open>while\<close> loop of \<open>mustache_build\<close> does: it goes on with a new
  builder stack, or leaves by \<open>goto user_error\<close>, or by \<open>goto error\<close> with the error
  code it has stored, or it reads outside the frame stack or the instruction array
  (undefined behaviour). Each carries the client's state as the callbacks of the turn
  have left it.
\<close>

datatype ('u, 'h) build_step_result =
    Step_next "'u mustache__builder_stack_s" 'h
  | Step_user_error 'h
  | Step_error mustache_error_en 'h
  | Step_undefined 'h

text \<open>\<open>s.stack[i]\<close>, when \<open>i\<close> is inside the array.\<close>

definition frame_at ::
  "'u mustache__builder_stack_s \<Rightarrow> int \<Rightarrow> 'u mustache__section_stack_frame_s option" where
  "frame_at s i =
     (if 0 \<le> i \<and> nat i < MUSTACHE_NESTING_LIMIT \<and> nat i < length (b_stack s)
      then Some (b_stack s ! nat i) else None)"

text \<open>\<open>s.stack[s.index].sec = x\<close>.\<close>

definition set_sec ::
  "'u mustache__builder_stack_s \<Rightarrow> 'u mustache_section_s \<Rightarrow> 'u mustache__builder_stack_s" where
  "set_sec s x =
     s\<lparr>b_stack := (b_stack s)[unat (b_index s) := (b_stack s ! unat (b_index s))\<lparr>sec := x\<rparr>]\<rparr>"

text \<open>\<open>++s.stack[s.index].index\<close>.\<close>

definition next_index :: "'u mustache__builder_stack_s \<Rightarrow> 'u mustache__builder_stack_s" where
  "next_index s =
     s\<lparr>b_stack := (b_stack s)[unat (b_index s) :=
          (b_stack s ! unat (b_index s))\<lparr>f_index := f_index (b_stack s ! unat (b_index s)) + 1\<rparr>]\<rparr>"

text \<open>
  "repeat / start section", for the iteration \<open>i\<close>: \<open>s.pos\<close> is the section's first
  instruction and \<open>s.stack[s.index].sec\<close> has been reset. A named section's
  \<open>mustache_on_section_start\<close> is called; then \<open>++s.stack[s.index].index\<close> and the
  \<open>++s.pos\<close> after the \<open>switch\<close>.
\<close>

definition section_repeat ::
  "('u, 'h) mustache_callbacks \<Rightarrow> 'u mustache__builder_stack_s \<Rightarrow> u32 \<Rightarrow> 'h
     \<Rightarrow> ('u, 'h) build_step_result" where
  "section_repeat cb s i h =
     (case inst_at (b_data s) (pos s) of
        None \<Rightarrow> Step_undefined h
      | Some inst \<Rightarrow>
          if d_name_pos inst \<noteq> 0 then
            (case mustache_on_section_start cb (callback_view s) (name_bytes (b_data s) inst)
                    (ucast (d_name_len inst)) i h of
               (r, x, h') \<Rightarrow>
                 if r = - 1 then Step_user_error h'
                 else Step_next ((next_index (set_sec s x))\<lparr>pos := pos s + 1\<rparr>) h')
          else Step_next ((next_index s)\<lparr>pos := pos s + 1\<rparr>) h)"

text \<open>
  The case \<open>MUSTACHE_SECTION_END\<close>, which the section openers fall into:
  "loop section or continue", up to the \<open>++s.pos\<close> after the \<open>switch\<close>.
\<close>

definition section_loop ::
  "('u, 'h) mustache_callbacks \<Rightarrow> 'u mustache__builder_stack_s \<Rightarrow> 'h
     \<Rightarrow> ('u, 'h) build_step_result" where
  "section_loop cb s h =
     (case frame_at s (uint (b_index s)) of
        None \<Rightarrow> Step_undefined h
      | Some f \<Rightarrow>
          if f_index f < count f then
            (case frame_at s (uint (b_index s) - 1) of
               None \<Rightarrow> Step_undefined h
             | Some parent \<Rightarrow>
                 section_repeat cb (set_sec (s\<lparr>pos := start f\<rparr>) (sec parent)) (f_index f) h)
          else Step_next (s\<lparr>pos := f_end f + 1, b_index := b_index s - 1\<rparr>) h)"

text \<open>
  "advance stack": the frame above the current frame \<open>cur\<close> is filled in and becomes
  the current one.
\<close>

definition push_frame ::
  "'u mustache__builder_stack_s \<Rightarrow> 'u mustache__section_stack_frame_s
     \<Rightarrow> mustache__instruction_s \<Rightarrow> 'u mustache__builder_stack_s" where
  "push_frame s cur inst =
     s\<lparr>b_index := b_index s + 1,
       b_stack := (b_stack s)[unat (b_index s) + 1 :=
         \<lparr>sec = sec cur,
          start = (if instruction inst = MUSTACHE_SECTION_GOTO then d_len inst else pos s),
          f_end = d_end inst,
          f_index = 0,
          count = 1,
          frame = b_index s + 1\<rparr>]\<rparr>"

text \<open>\<open>s.stack[s.index].count = (uint32_t)val\<close>.\<close>

definition set_count ::
  "'u mustache__builder_stack_s \<Rightarrow> u32 \<Rightarrow> 'u mustache__builder_stack_s" where
  "set_count s c =
     s\<lparr>b_stack := (b_stack s)[unat (b_index s) := (b_stack s ! unat (b_index s))\<lparr>count := c\<rparr>]\<rparr>"

text \<open>
  The number of iterations a named section gets from the value \<open>val\<close> of its test:
  "invert test" for \<open>MUSTACHE_SECTION_START_INV\<close>, then the cast to \<open>uint32_t\<close>.
\<close>

definition section_count :: "mustache__instruction_s \<Rightarrow> int32 \<Rightarrow> u32" where
  "section_count inst val =
     (if instruction inst = MUSTACHE_SECTION_START_INV then (if val = 0 then 1 else 0)
      else val)"

text \<open>
  "test section count", in the frame just pushed: a named section is tested against the
  user data, and the value gives the frame's \<open>count\<close>; then on into the section loop.
\<close>

definition section_test ::
  "('u, 'h) mustache_callbacks \<Rightarrow> 'u mustache__builder_stack_s \<Rightarrow> 'h
     \<Rightarrow> mustache__instruction_s \<Rightarrow> ('u, 'h) build_step_result" where
  "section_test cb s h inst =
     (if d_name_pos inst \<noteq> 0 then
        (case mustache_on_section_test cb (callback_view s) (name_bytes (b_data s) inst)
                (ucast (d_name_len inst))
                (if instruction inst = MUSTACHE_SECTION_START then 1 else 0) h of
           (val, x, h') \<Rightarrow>
             if val = - 1 then Step_user_error h'
             else section_loop cb (set_count (set_sec s x) (section_count inst val)) h')
      else section_loop cb s h)"

text \<open>
  The cases \<open>MUSTACHE_SECTION_GOTO\<close>, \<open>MUSTACHE_SECTION_START\<close> and
  \<open>MUSTACHE_SECTION_START_INV\<close>: "advance stack", then "test section count".
\<close>

definition section_open ::
  "('u, 'h) mustache_callbacks \<Rightarrow> 'u mustache__builder_stack_s \<Rightarrow> 'h
     \<Rightarrow> mustache__instruction_s \<Rightarrow> ('u, 'h) build_step_result" where
  "section_open cb s h inst =
     (if unat (b_index s) + 1 \<ge> MUSTACHE_NESTING_LIMIT then Step_error MUSTACHE_ERR_TOO_DEEP h
      else case frame_at s (uint (b_index s)) of
        None \<Rightarrow> Step_undefined h
      | Some cur \<Rightarrow> section_test cb (push_frame s cur inst) h inst)"

text \<open>
  One turn of the loop at the instruction \<open>inst = instructions[s.pos]\<close>. The
  \<open>default\<close> case of the \<open>switch\<close> needs a tag outside the enumeration, which the
  datatype does not have.
\<close>

definition build_step ::
  "('u, 'h) mustache_callbacks \<Rightarrow> 'u mustache__builder_stack_s \<Rightarrow> 'h
     \<Rightarrow> mustache__instruction_s \<Rightarrow> ('u, 'h) build_step_result" where
  "build_step cb s h inst =
     (case instruction inst of
        MUSTACHE_WRITE_TEXT \<Rightarrow>
          (case frame_at s (uint (b_index s)) of
             None \<Rightarrow> Step_undefined h
           | Some cur \<Rightarrow>
               (case mustache_on_text cb (callback_view s) (name_bytes (b_data s) inst)
                       (ucast (d_name_len inst)) h of
                  (r, x, h') \<Rightarrow>
                    if r \<noteq> 0 then Step_user_error h'
                    else Step_next ((set_sec s x)\<lparr>pos := pos s + 1\<rparr>) h'))
      | MUSTACHE_WRITE_ARG \<Rightarrow>
          (case frame_at s (uint (b_index s)) of
             None \<Rightarrow> Step_undefined h
           | Some cur \<Rightarrow>
               (case mustache_on_arg cb (callback_view s) (name_bytes (b_data s) inst)
                       (ucast (d_name_len inst)) 1 h of
                  (r, x, h') \<Rightarrow>
                    if r \<noteq> 0 then Step_user_error h'
                    else Step_next ((set_sec s x)\<lparr>pos := pos s + 1\<rparr>) h'))
      | MUSTACHE_WRITE_ARG_UNESCAPED \<Rightarrow>
          (case frame_at s (uint (b_index s)) of
             None \<Rightarrow> Step_undefined h
           | Some cur \<Rightarrow>
               (case mustache_on_arg cb (callback_view s) (name_bytes (b_data s) inst)
                       (ucast (d_name_len inst)) 0 h of
                  (r, x, h') \<Rightarrow>
                    if r \<noteq> 0 then Step_user_error h'
                    else Step_next ((set_sec s x)\<lparr>pos := pos s + 1\<rparr>) h'))
      | MUSTACHE_SECTION_GOTO \<Rightarrow> section_open cb s h inst
      | MUSTACHE_SECTION_START \<Rightarrow> section_open cb s h inst
      | MUSTACHE_SECTION_START_INV \<Rightarrow> section_open cb s h inst
      | MUSTACHE_SECTION_END \<Rightarrow> section_loop cb s h)"

text \<open>
  Where \<open>mustache_build\<close> is after some turns of its loop: still in the loop, with
  its builder stack; or it has returned (\<open>0\<close> or \<open>- 1\<close>) with the code stored in
  \<open>*args.err\<close>; or it has run into undefined behaviour. Each carries the client's
  state.
\<close>

datatype ('u, 'h) build_run =
    Build_running "'u mustache__builder_stack_s" 'h
  | Build_returned int32 mustache_error_en 'h
  | Build_undefined 'h

text \<open>The labels \<open>user_error\<close> and \<open>error\<close>: the error callback, then \<open>return -1\<close>.\<close>

definition build_error ::
  "('u, 'h) mustache_callbacks \<Rightarrow> 'u \<Rightarrow> 'u \<Rightarrow> mustache_error_en \<Rightarrow> 'h
     \<Rightarrow> ('u, 'h) build_run" where
  "build_error cb u1 u2 e h =
     Build_returned (- 1) e (mustache_on_formatting_error cb u1 u2 h)"

text \<open>
  The \<open>while\<close> loop of \<open>mustache_build\<close> with what follows it. The loop may run for
  ever (a section may be repeated \<open>2^32 - 1\<close> times, a template may jump back into
  itself), so it is given a number of turns, a turn being one test of the loop's
  condition with the body that follows; with no turn left the render is still running.
\<close>

fun build_loop ::
  "nat \<Rightarrow> ('u, 'h) mustache_callbacks \<Rightarrow> 'u \<Rightarrow> 'u \<Rightarrow> 'u mustache__builder_stack_s \<Rightarrow> 'h
     \<Rightarrow> ('u, 'h) build_run" where
  "build_loop 0 cb u1 u2 s h = Build_running s h"
| "build_loop (Suc n) cb u1 u2 s h =
     (case inst_at (b_data s) (pos s) of
        None \<Rightarrow> Build_returned 0 MUSTACHE_OK h
      | Some inst \<Rightarrow>
          (case build_step cb s h inst of
             Step_next s' h' \<Rightarrow> build_loop n cb u1 u2 s' h'
           | Step_user_error h' \<Rightarrow> build_error cb u1 u2 MUSTACHE_ERR_USER_ERROR h'
           | Step_error e h' \<Rightarrow> build_error cb u1 u2 e h'
           | Step_undefined h' \<Rightarrow> Build_undefined h'))"

text \<open>\<open>mustache_build_args_s\<close>; \<open>mustache\<close> is \<open>None\<close> for a \<open>NULL\<close> template.\<close>

record 'u mustache_build_args_s =
  mustache :: "mustache_s option"
  arg_udata1 :: 'u
  arg_udata2 :: 'u

text \<open>
  The local \<open>mustache__builder_stack_s s\<close> when the loop is entered. The source
  assigns \<open>s.stack[0]\<close> and leaves the other frames of the array as they are: \<open>mem i\<close>
  is what the memory of \<open>s.stack[i]\<close> holds at that moment.
\<close>

definition builder_stack ::
  "mustache_s \<Rightarrow> 'u \<Rightarrow> 'u \<Rightarrow> mustache__instruction_s
     \<Rightarrow> (nat \<Rightarrow> 'u mustache__section_stack_frame_s) \<Rightarrow> 'u mustache__builder_stack_s" where
  "builder_stack m u1 u2 i0 mem =
     \<lparr>b_data = m, pos = 0, b_index = 0,
      b_stack =
        \<lparr>sec = \<lparr>udata1 = u1, udata2 = u2\<rparr>, start = 0, f_end = d_end i0, f_index = 0,
         count = 0, frame = 0\<rparr>
        # map mem [1..<MUSTACHE_NESTING_LIMIT]\<rparr>"

text \<open>
  \<open>mustache_build\<close>, given \<open>fuel\<close> turns of its loop. \<open>instructions[0].data.end\<close> is
  read before the loop: with no instruction at all that read is outside the array.
\<close>

definition mustache_build ::
  "nat \<Rightarrow> ('u, 'h) mustache_callbacks \<Rightarrow> 'u mustache_build_args_s
     \<Rightarrow> (nat \<Rightarrow> 'u mustache__section_stack_frame_s) \<Rightarrow> 'h \<Rightarrow> ('u, 'h) build_run" where
  "mustache_build fuel cb args mem h =
     (case mustache args of
        None \<Rightarrow> build_error cb (arg_udata1 args) (arg_udata2 args) MUSTACHE_ERR_USER_ERROR h
      | Some m \<Rightarrow>
          (case inst_at m 0 of
             None \<Rightarrow> Build_undefined h
           | Some i0 \<Rightarrow>
               build_loop fuel cb (arg_udata1 args) (arg_udata2 args)
                 (builder_stack m (arg_udata1 args) (arg_udata2 args) i0 mem) h))"

subsection \<open>The loader's state\<close>

text \<open>
  A frame of \<open>mustache__loader_stack_s.stack\<close>. Positions in the data buffer are
  natural numbers; they are \<open>uint32_t\<close> in the source, where \<open>mustache__load_data\<close>
  refuses data that would pass \<open>UINT32_MAX\<close>.
\<close>

record loader_frame =
  data_start :: nat
  data_pos :: nat
  data_end :: nat
  open_sections :: nat
  del_start :: string
  del_end :: string
  del_start_len :: nat
  del_end_len :: nat

text \<open>
  \<open>mustache__loader_stack_s\<close>. \<open>l_i\<close> is the instruction array \<open>s.i\<close> with
  \<open>s.m->u.read_only.intruction_count\<close> its length; \<open>l_data\<close> is the buffer \<open>s.data\<close>
  with \<open>s.data_len\<close> (and \<open>s.m->u.read_only.data_length\<close>) its length, \<open>[]\<close> while
  \<open>s.data\<close> is \<open>NULL\<close>; the byte after it is the NUL the loader keeps there. The
  capacities \<open>i_capa\<close> and \<open>path_capa\<close> only drive \<open>realloc\<close>. \<open>l_index\<close> and
  \<open>l_stack\<close> are \<open>index\<close> and \<open>stack\<close>.
\<close>

record mustache__loader_stack_s =
  l_i :: "mustache__instruction_s list"
  err :: mustache_error_en
  l_data :: string
  path :: string
  l_index :: nat
  l_stack :: "loader_frame list"

text \<open>
  The files the loader can see: \<open>stat\<close> succeeds with \<open>S_ISREG\<close> on the paths that
  have contents here, \<open>st_size\<close> is their length, and \<open>open\<close> and \<open>pread\<close> read them.
\<close>

type_synonym file_system = "string \<Rightarrow> string option"

text \<open>The limits are integers, compared with sizes and positions as integers.\<close>

definition INT32_MAX :: int where
  "INT32_MAX = 2147483647"

definition UINT32_MAX :: int where
  "UINT32_MAX = 4294967295"

definition UINT16_MAX :: int where
  "UINT16_MAX = 65535"

definition MUSTACHE_DELIMITER_LENGTH_LIMIT :: int where
  "MUSTACHE_DELIMITER_LENGTH_LIMIT = 11"

subsection \<open>C strings\<close>

text \<open>The C string at the start of some bytes: up to the first NUL.\<close>

definition c_str :: "string \<Rightarrow> string" where
  "c_str xs = takeWhile (\<lambda>c. c \<noteq> NUL) xs"

text \<open>The first position at which \<open>pat\<close> occurs in \<open>xs\<close>.\<close>

fun find_sub :: "string \<Rightarrow> string \<Rightarrow> nat option" where
  "find_sub pat [] = (if pat = [] then Some 0 else None)"
| "find_sub pat (c # cs) =
     (if prefix pat (c # cs) then Some 0 else map_option Suc (find_sub pat cs))"

text \<open>
  \<open>strstr(d + p, pat)\<close> as a position in \<open>d\<close>, \<open>None\<close> for \<open>NULL\<close>: the search stops
  at the first NUL at or after \<open>p\<close>.
\<close>

definition strstr :: "string \<Rightarrow> nat \<Rightarrow> string \<Rightarrow> nat option" where
  "strstr d p pat = map_option (\<lambda>k. p + k) (find_sub pat (c_str (drop p d)))"

text \<open>\<open>isspace\<close> in the C locale.\<close>

definition isspace :: "char \<Rightarrow> bool" where
  "isspace c = (c = CHR '' '' \<or> c = CHR 0x09 \<or> c = CHR 0x0A \<or> c = CHR 0x0B
                \<or> c = CHR 0x0C \<or> c = CHR 0x0D)"

text \<open>\<open>MUSTACHE_IGNORE_WHITESPACE(str, 1)\<close> from position \<open>p\<close>.\<close>

definition ignore_whitespace_fwd :: "string \<Rightarrow> nat \<Rightarrow> nat" where
  "ignore_whitespace_fwd d p = p + length (takeWhile isspace (drop p d))"

text \<open>
  \<open>MUSTACHE_IGNORE_WHITESPACE(str, -1)\<close> from position \<open>p\<close>. The walk back ends at
  the latest on byte \<open>0\<close> of the buffer, the low byte of the root template's
  \<open>inst_start\<close>, which is \<open>0\<close>.
\<close>

fun ignore_whitespace_bwd :: "string \<Rightarrow> nat \<Rightarrow> nat" where
  "ignore_whitespace_bwd d 0 = 0"
| "ignore_whitespace_bwd d (Suc p) =
     (if isspace (byte_at d (Suc p)) then ignore_whitespace_bwd d p else Suc p)"

text \<open>
  The trimming every tag does: \<open>--end\<close>, skip white space forwards from \<open>beg\<close> and
  backwards from \<open>end\<close>, \<open>++end\<close>.
\<close>

definition trim_name :: "string \<Rightarrow> nat \<Rightarrow> nat \<Rightarrow> nat \<times> nat" where
  "trim_name d beg e =
     (ignore_whitespace_fwd d beg, ignore_whitespace_bwd d (e - 1) + 1)"

text \<open>A pointer difference converted to \<open>size_t\<close> (64 bits).\<close>

definition size_of_diff :: "int \<Rightarrow> nat" where
  "size_of_diff x = nat (x mod 2 ^ 64)"

subsection \<open>Loader helpers\<close>

text \<open>
  \<open>mustache__instruction_push\<close>: \<open>True\<close> is the return value \<open>-1\<close>, with
  \<open>*s->err\<close> set.
\<close>

definition mustache__instruction_push ::
  "mustache__loader_stack_s \<Rightarrow> mustache__instruction_s \<Rightarrow> bool \<times> mustache__loader_stack_s" where
  "mustache__instruction_push s inst =
     (if int (length (l_i s)) \<ge> INT32_MAX then (True, s\<lparr>err := MUSTACHE_ERR_TOO_DEEP\<rparr>)
      else (False, s\<lparr>l_i := l_i s @ [inst]\<rparr>))"

text \<open>
  The loop of \<open>mustache__file_is_loaded\<close> from the position \<open>p\<close> of the walking
  pointer \<open>data\<close>. It returns what the function returns; the model also returns the
  positions at which a header was read and the position at which the loop ended. The
  loop does not end when a header whose name differs decodes \<open>next\<close> as \<open>0\<close>.
\<close>

partial_function (option) file_is_loaded_loop ::
  "string \<Rightarrow> string \<Rightarrow> nat \<Rightarrow> nat \<Rightarrow> nat list \<Rightarrow> (u32 \<times> nat list \<times> nat) option" where
  "file_is_loaded_loop d name name_len p visited =
     (if p < length d then
        (let seg = mustache__data_segment_read (drop p d) in
         if unat (filename_len seg) = name_len
            \<and> take name_len (filename seg) = take name_len name
         then Some (inst_start seg, visited @ [p], p)
         else file_is_loaded_loop d name name_len (p + unat (next_pos seg)) (visited @ [p]))
      else Some (- 1, visited, p))"

declare file_is_loaded_loop.simps [code]

definition mustache__file_is_loaded ::
  "mustache__loader_stack_s \<Rightarrow> string \<Rightarrow> nat \<Rightarrow> u32 option" where
  "mustache__file_is_loaded s name name_len =
     map_option fst (file_is_loaded_loop (l_data s) name name_len 0 [])"

text \<open>The scan for the directory part of a name in \<open>mustache__load_data\<close>.\<close>

fun name_path_len :: "string \<Rightarrow> nat \<Rightarrow> nat" where
  "name_path_len name 0 = 0"
| "name_path_len name (Suc n) =
     (if byte_at name n = CHR ''/'' \<or> byte_at name n = CHR 0x5C then Suc n
      else name_path_len name n)"

text \<open>The frame \<open>mustache__load_data\<close> pushes, with the delimiters reset.\<close>

definition new_frame :: "nat \<Rightarrow> nat \<Rightarrow> nat \<Rightarrow> loader_frame" where
  "new_frame st p e =
     \<lparr>data_start = st, data_pos = p, data_end = e, open_sections = 0,
      del_start = ''{{'', del_end = ''}}'', del_start_len = 2, del_end_len = 2\<rparr>"

text \<open>
  \<open>mustache__load_data\<close>: \<open>Inl\<close> is the return value \<open>-1\<close>. \<open>data\<close> holds the
  \<open>data_len\<close> bytes copied after the header (for a file, the bytes \<open>pread\<close> puts
  there before anything reads them). The header takes \<open>13 + name_len\<close> bytes; the bytes
  of it that \<open>mustache__data_segment_write\<close> does not write are not initialised in the
  source and NUL here.
\<close>

definition mustache__load_data ::
  "mustache__loader_stack_s \<Rightarrow> string \<Rightarrow> nat \<Rightarrow> string \<Rightarrow> nat
     \<Rightarrow> mustache__loader_stack_s + mustache__loader_stack_s" where
  "mustache__load_data s name name_len data data_len =
     (let old_len = length (l_data s) in
      if int old_len + int data_len > UINT32_MAX then Inl (s\<lparr>err := MUSTACHE_ERR_TOO_DEEP\<rparr>)
      else
        let path_len = name_path_len name name_len;
            hdr = mustache__data_segment_write
                    \<lparr>filename = name,
                     inst_start = of_nat (length (l_i s)),
                     next_pos = of_nat (old_len + data_len
                                        + mustache__data_segment_length name_len),
                     filename_len = of_nat name_len,
                     path_len = of_nat path_len\<rparr>;
            hdr' = take (mustache__data_segment_length name_len)
                     (hdr @ replicate (mustache__data_segment_length name_len) NUL);
            body = take data_len (data @ replicate data_len NUL);
            s1 = s\<lparr>l_data := l_data s @ hdr' @ body\<rparr>;
            s2 = snd (mustache__instruction_push s1 (inst0 MUSTACHE_SECTION_START));
            s3 = s2\<lparr>l_index := l_index s2 + 1\<rparr>
        in if l_index s3 \<ge> MUSTACHE_NESTING_LIMIT
           then Inl (s3\<lparr>err := MUSTACHE_ERR_TOO_DEEP\<rparr>)
           else Inr (s3\<lparr>l_stack := (l_stack s3)[l_index s3 :=
                        new_frame old_len
                          (old_len + mustache__data_segment_length name_len)
                          (length (l_data s3))]\<rparr>))"


subsection \<open>\<open>mustache__load_file\<close>\<close>

text \<open>
  One turn of the \<open>do\<close> loop that walks the stack backwards and matches paths, at
  the frame \<open>i\<close>, with the local \<open>old_path_len\<close> and the buffer \<open>s->path\<close> (kept as
  the C string it holds): the file is found (path, its length, the file's bytes), or
  the loop goes on (\<open>old_path_len\<close>, the buffer, and whether the local folder was
  tested, which sets \<open>i = 1\<close>).
\<close>

datatype path_try_result =
    Path_found string nat string
  | Path_next nat string bool

definition path_try ::
  "file_system \<Rightarrow> mustache__loader_stack_s \<Rightarrow> string \<Rightarrow> nat \<Rightarrow> nat \<Rightarrow> nat \<Rightarrow> string
     \<Rightarrow> path_try_result" where
  "path_try fs s name name_len i old_path_len pth =
     (let seg = (if l_data s \<noteq> []
                 then mustache__data_segment_read (drop (data_start (l_stack s ! i)) (l_data s))
                 else \<lparr>filename = [], inst_start = 0, next_pos = 0, filename_len = 0,
                       path_len = 0\<rparr>);
          pl = unat (path_len seg)
      in if old_path_len \<noteq> 0 \<and> old_path_len = pl
            \<and> take old_path_len pth = take old_path_len (filename seg)
         then Path_next old_path_len pth False
         else
           let p1 = take pl (filename seg) @ take name_len name;
               p2 = p1 @ ''.mustache''
           in case fs (c_str p1) of
                Some f \<Rightarrow> Path_found p1 (name_len + pl) f
              | None \<Rightarrow>
                  (case fs (c_str p2) of
                     Some f \<Rightarrow> Path_found p2 (name_len + pl + 9) f
                   | None \<Rightarrow> Path_next pl p2 (pl = 0)))"

text \<open>
  The \<open>do { ... } while (--i)\<close> loop from the frame \<open>i\<close>: \<open>Inr\<close> is
  \<open>goto file_found\<close>, \<open>Inl\<close> the end of the loop with the buffer as it is left. (At
  \<open>i = 0\<close> the loader has no data yet and the turn tests the local folder.)
\<close>

fun path_search ::
  "file_system \<Rightarrow> mustache__loader_stack_s \<Rightarrow> string \<Rightarrow> nat \<Rightarrow> nat \<Rightarrow> nat \<Rightarrow> string
     \<Rightarrow> string + (string \<times> nat \<times> string)" where
  "path_search fs s name name_len 0 old_path_len pth =
     (case path_try fs s name name_len 0 old_path_len pth of
        Path_found p l f \<Rightarrow> Inr (p, l, f)
      | Path_next l p loc \<Rightarrow> Inl p)"
| "path_search fs s name name_len (Suc k) old_path_len pth =
     (case path_try fs s name name_len (Suc k) old_path_len pth of
        Path_found p l f \<Rightarrow> Inr (p, l, f)
      | Path_next l p loc \<Rightarrow>
          if loc \<or> k = 0 then Inl p else path_search fs s name name_len k l p)"

text \<open>Pushing a \<open>MUSTACHE_SECTION_GOTO\<close> to the instruction \<open>target\<close>.\<close>

definition push_goto ::
  "mustache__loader_stack_s \<Rightarrow> u32 \<Rightarrow> mustache__loader_stack_s + mustache__loader_stack_s" where
  "push_goto s target =
     (case mustache__instruction_push s
             ((inst0 MUSTACHE_SECTION_GOTO)
                \<lparr>d_len := target, d_end := of_nat (length (l_i s))\<rparr>) of
        (True, s') \<Rightarrow> Inl s'
      | (False, s') \<Rightarrow> Inr s')"

text \<open>
  \<open>mustache__load_file\<close>: \<open>Inl\<close> is the return value \<open>-1\<close> with \<open>*s->err\<close> set,
  \<open>None\<close> a walk over the loaded templates that does not end.
\<close>

definition mustache__load_file ::
  "file_system \<Rightarrow> mustache__loader_stack_s \<Rightarrow> string \<Rightarrow> nat
     \<Rightarrow> (mustache__loader_stack_s + mustache__loader_stack_s) option" where
  "mustache__load_file fs s name name_len =
     (if name_len = 0 then Some (Inl (s\<lparr>err := MUSTACHE_ERR_FILE_NAME_TOO_SHORT\<rparr>))
      else if int name_len \<ge> 8192 then Some (Inl (s\<lparr>err := MUSTACHE_ERR_FILE_NAME_TOO_LONG\<rparr>))
      else case path_search fs s name name_len (l_index s) 0 (path s) of
        Inl p \<Rightarrow>
          (let s1 = s\<lparr>path := p\<rparr>;
               seg = mustache__data_segment_read (l_data s1)
           in if l_data s1 \<noteq> [] \<and> unat (filename_len seg) = name_len
                 \<and> take name_len (filename seg) = take name_len name
              then Some (push_goto s1 0)
              else Some (Inl (s1\<lparr>err := MUSTACHE_ERR_FILE_NOT_FOUND\<rparr>)))
      | Inr (p, old_path_len, f) \<Rightarrow>
          (let s1 = s\<lparr>path := p\<rparr>
           in if int (length f) \<ge> INT32_MAX then Some (Inl (s1\<lparr>err := MUSTACHE_ERR_FILE_TOO_BIG\<rparr>))
              else case mustache__file_is_loaded s1 p old_path_len of
                None \<Rightarrow> None
              | Some pre_existing \<Rightarrow>
                  if pre_existing \<noteq> - 1 then Some (push_goto s1 pre_existing)
                  else Some (mustache__load_data s1 p old_path_len f (length f))))"

subsection \<open>The tags\<close>

definition top_frame :: "mustache__loader_stack_s \<Rightarrow> loader_frame" where
  "top_frame s = l_stack s ! l_index s"

definition set_top_frame ::
  "mustache__loader_stack_s \<Rightarrow> loader_frame \<Rightarrow> mustache__loader_stack_s" where
  "set_top_frame s f = s\<lparr>l_stack := (l_stack s)[l_index s := f]\<rparr>"

text \<open>The bytes of the buffer from \<open>b\<close> up to \<open>e\<close>.\<close>

definition bytes_between :: "string \<Rightarrow> nat \<Rightarrow> nat \<Rightarrow> string" where
  "bytes_between d b e = take (e - b) (drop b d)"

text \<open>
  \<open>case '='\<close>: new delimiters. \<open>beg\<close> is the position after the opening delimiter,
  \<open>e\<close> the position of the closing one.
\<close>

definition tag_delimiters ::
  "mustache__loader_stack_s \<Rightarrow> nat \<Rightarrow> nat \<Rightarrow> mustache__loader_stack_s + mustache__loader_stack_s" where
  "tag_delimiters s beg0 e0 =
     (let d = l_data s; beg1 = beg0 + 1; e1 = e0 - 1 in
      if byte_at d e1 \<noteq> CHR ''='' then Inl (s\<lparr>err := MUSTACHE_ERR_CLOSURE_MISMATCH\<rparr>)
      else
        let beg = ignore_whitespace_fwd d beg1;
            e = ignore_whitespace_bwd d (e1 - 1) + 1;
            dv = (if beg < e
                  then beg + length (takeWhile (\<lambda>c. \<not> isspace c) (bytes_between d beg e))
                  else beg)
        in if dv = e \<or> dv = beg then Inl (s\<lparr>err := MUSTACHE_ERR_CLOSURE_MISMATCH\<rparr>)
           else if int dv - int beg \<ge> MUSTACHE_DELIMITER_LENGTH_LIMIT
           then Inl (s\<lparr>err := MUSTACHE_ERR_DELIMITER_TOO_LONG\<rparr>)
           else
             let f1 = (top_frame s)\<lparr>del_start_len := dv - beg,
                                    del_start := bytes_between d beg dv\<rparr>;
                 s1 = set_top_frame s f1;
                 dv2 = ignore_whitespace_fwd d (dv + 1)
             in if dv2 = e then Inl (s1\<lparr>err := MUSTACHE_ERR_CLOSURE_MISMATCH\<rparr>)
                else if int e - int dv2 \<ge> MUSTACHE_DELIMITER_LENGTH_LIMIT
                then Inl (s1\<lparr>err := MUSTACHE_ERR_DELIMITER_TOO_LONG\<rparr>)
                else Inr (set_top_frame s1
                            (f1\<lparr>del_end_len := nat ((int e - int dv2) mod 256),
                                del_end := bytes_between d dv2
                                             (dv2 + nat ((int e - int dv2) mod 256))\<rparr>)))"

text \<open>
  \<open>case '^'\<close> and \<open>case '#'\<close>: a section starts. The test on the position of the
  name stores \<open>MUSTACHE_ERR_NAME_TOO_LONG\<close> and goes on.
\<close>

definition tag_section_start ::
  "mustache__loader_stack_s \<Rightarrow> bool \<Rightarrow> nat \<Rightarrow> nat
     \<Rightarrow> mustache__loader_stack_s + mustache__loader_stack_s" where
  "tag_section_start s escape_str beg0 e0 =
     (case trim_name (l_data s) (beg0 + 1) e0 of
        (beg, e) \<Rightarrow>
          let f = top_frame s;
              s1 = set_top_frame s (f\<lparr>open_sections := open_sections f + 1\<rparr>)
          in if open_sections f + 1 \<ge> MUSTACHE_NESTING_LIMIT
             then Inl (s1\<lparr>err := MUSTACHE_ERR_TOO_DEEP\<rparr>)
             else
               let s2 = (if int beg \<ge> UINT16_MAX then s1\<lparr>err := MUSTACHE_ERR_NAME_TOO_LONG\<rparr>
                         else s1)
               in case mustache__instruction_push s2
                    ((inst0 (if escape_str then MUSTACHE_SECTION_START
                             else MUSTACHE_SECTION_START_INV))
                       \<lparr>d_name_pos := of_nat beg,
                        d_name_len := of_int (int e - int beg),
                        d_offset := of_int (int (data_pos f) - int beg)\<rparr>) of
                    (True, s3) \<Rightarrow> Inl s3
                  | (False, s3) \<Rightarrow> Inr s3)"

text \<open>\<open>case '>'\<close>: a partial template.\<close>

definition tag_partial ::
  "file_system \<Rightarrow> mustache__loader_stack_s \<Rightarrow> nat \<Rightarrow> nat
     \<Rightarrow> (mustache__loader_stack_s + mustache__loader_stack_s) option" where
  "tag_partial fs s beg0 e0 =
     (case trim_name (l_data s) (beg0 + 1) e0 of
        (beg, e) \<Rightarrow>
          mustache__load_file fs s (drop beg (l_data s)) (size_of_diff (int e - int beg)))"

text \<open>
  The \<open>do { --pos; ... } while (pos)\<close> loop of \<open>case '/'\<close> from \<open>pos\<close>, with the
  count \<open>nested\<close> of closed sections passed: the position of the section start that
  the tag closes, if the loop meets one.
\<close>

fun find_section_start :: "mustache__instruction_s list \<Rightarrow> nat \<Rightarrow> u32 \<Rightarrow> nat option" where
  "find_section_start is 0 nested = None"
| "find_section_start is (Suc p) nested =
     (if instruction (is ! p) = MUSTACHE_SECTION_END
      then find_section_start is p (nested + 1)
      else if instruction (is ! p) = MUSTACHE_SECTION_START
              \<or> instruction (is ! p) = MUSTACHE_SECTION_START_INV
      then (if nested \<noteq> 0 then find_section_start is p (nested - 1) else Some p)
      else find_section_start is p nested)"

text \<open>\<open>case '/'\<close>: a section ends. \<open>org_beg\<close> is the position of the opening delimiter.\<close>

definition tag_section_end ::
  "mustache__loader_stack_s \<Rightarrow> nat \<Rightarrow> nat \<Rightarrow> nat
     \<Rightarrow> mustache__loader_stack_s + mustache__loader_stack_s" where
  "tag_section_end s org_beg beg0 e0 =
     (case trim_name (l_data s) (beg0 + 1) e0 of
        (beg, e) \<Rightarrow>
          if open_sections (top_frame s) = 0
          then Inl (s\<lparr>err := MUSTACHE_ERR_CLOSURE_MISMATCH\<rparr>)
          else case find_section_start (l_i s) (length (l_i s)) 0 of
            None \<Rightarrow> Inl (s\<lparr>err := MUSTACHE_ERR_CLOSURE_MISMATCH\<rparr>)
          | Some p \<Rightarrow>
              let i = l_i s ! p in
              if int (unat (d_name_len i)) \<noteq> int e - int beg
                 \<or> take (unat (d_name_len i)) (drop beg (l_data s))
                     \<noteq> take (unat (d_name_len i)) (drop (unat (d_name_pos i)) (l_data s))
              then Inl (s\<lparr>err := MUSTACHE_ERR_CLOSURE_MISMATCH\<rparr>)
              else
                let i' = i\<lparr>d_end := of_nat (length (l_i s)),
                           d_len := of_int (int org_beg
                                            - (int (unat (d_name_pos i))
                                               + int (unat (d_offset i))))\<rparr>;
                    s1 = s\<lparr>l_i := (l_i s)[p := i']\<rparr>;
                    s2 = snd (mustache__instruction_push s1
                                (i'\<lparr>instruction := MUSTACHE_SECTION_END\<rparr>));
                    f = top_frame s2
                in Inr (set_top_frame s2 (f\<lparr>open_sections := open_sections f - 1\<rparr>)))"

text \<open>
  The \<open>default\<close> case, into which \<open>'{'\<close>, \<open>'&'\<close>, \<open>':'\<close> and \<open>'<'\<close> fall: a
  variable. \<open>beg\<close> has been stepped over the sigil by the caller.
\<close>

definition tag_arg ::
  "mustache__loader_stack_s \<Rightarrow> bool \<Rightarrow> nat \<Rightarrow> nat \<Rightarrow> mustache__loader_stack_s" where
  "tag_arg s escape_str beg0 e0 =
     (case trim_name (l_data s) beg0 e0 of
        (beg, e) \<Rightarrow>
          snd (mustache__instruction_push s
                 ((inst0 (if escape_str then MUSTACHE_WRITE_ARG
                          else MUSTACHE_WRITE_ARG_UNESCAPED))
                    \<lparr>d_name_pos := of_nat beg, d_name_len := of_int (int e - int beg)\<rparr>)))"


subsection \<open>\<open>mustache_load\<close>\<close>

text \<open>
  The \<open>switch (beg[0])\<close> of the parsing loop. The reading position of the frame is
  already after the closing delimiter.
\<close>

definition tag_dispatch ::
  "file_system \<Rightarrow> mustache__loader_stack_s \<Rightarrow> nat \<Rightarrow> nat \<Rightarrow> nat
     \<Rightarrow> (mustache__loader_stack_s + mustache__loader_stack_s) option" where
  "tag_dispatch fs s org_beg beg e =
     (let c = byte_at (l_data s) beg; f = top_frame s in
      if c = CHR ''!'' then Some (Inr s)
      else if c = CHR ''='' then Some (tag_delimiters s beg e)
      else if c = CHR ''^'' then Some (tag_section_start s False beg e)
      else if c = CHR ''#'' then Some (tag_section_start s True beg e)
      else if c = CHR ''>'' then tag_partial fs s beg e
      else if c = CHR ''/'' then Some (tag_section_end s org_beg beg e)
      else if c = CHR ''{'' then
        Some (Inr (tag_arg
          (if byte_at (l_data s) (data_pos f) = CHR ''}''
              \<and> byte_at (del_end f) 0 = CHR ''}''
              \<and> byte_at (del_end f) (del_end_len f - 1) = CHR ''}''
           then set_top_frame s (f\<lparr>data_pos := data_pos f + 1\<rparr>) else s)
          False (beg + 1) e))
      else if c = CHR ''&'' then Some (Inr (tag_arg s False (beg + 1) e))
      else if c = CHR '':'' \<or> c = CHR ''<'' then Some (Inr (tag_arg s True (beg + 1) e))
      else Some (Inr (tag_arg s True beg e)))"

text \<open>"no instructions left, only text": the rest of the template is one text.\<close>

definition text_only :: "mustache__loader_stack_s \<Rightarrow> mustache__loader_stack_s" where
  "text_only s =
     (let f = top_frame s;
          s1 = snd (mustache__instruction_push s
                      ((inst0 MUSTACHE_WRITE_TEXT)
                         \<lparr>d_name_pos := of_nat (data_pos f),
                          d_name_len := of_nat (data_end f - data_pos f)\<rparr>))
      in set_top_frame s1 (f\<lparr>data_pos := data_end f\<rparr>))"

text \<open>
  One turn of the parsing loop \<open>while (data_pos < data_end)\<close>: \<open>Inl\<close> is
  \<open>goto error\<close>.
\<close>

definition parse_step ::
  "file_system \<Rightarrow> mustache__loader_stack_s
     \<Rightarrow> (mustache__loader_stack_s + mustache__loader_stack_s) option" where
  "parse_step fs s =
     (let f = top_frame s; d = l_data s; start = data_pos f in
      case strstr d start (del_start f) of
        None \<Rightarrow> Some (Inr (text_only s))
      | Some org_beg \<Rightarrow>
          if org_beg \<ge> data_end f then Some (Inr (text_only s))
          else
            let s1 = (if org_beg \<noteq> start
                      then snd (mustache__instruction_push s
                                  ((inst0 MUSTACHE_WRITE_TEXT)
                                     \<lparr>d_name_pos := of_nat (data_pos f),
                                      d_name_len := of_nat (org_beg - start)\<rparr>))
                      else s);
                beg = org_beg + del_start_len f
            in case strstr d beg (del_end f) of
                 None \<Rightarrow> Some (Inl (s1\<lparr>err := MUSTACHE_ERR_CLOSURE_MISMATCH\<rparr>))
               | Some e \<Rightarrow>
                   if e \<ge> data_end f
                   then Some (Inl (s1\<lparr>err := MUSTACHE_ERR_CLOSURE_MISMATCH\<rparr>))
                   else tag_dispatch fs
                          (set_top_frame s1 (f\<lparr>data_pos := e + del_end_len f\<rparr>))
                          org_beg beg e)"

text \<open>
  The end of a template: "make sure all sections were closed", "add instruction
  closure", "pop stack".
\<close>

definition close_frame ::
  "mustache__loader_stack_s \<Rightarrow> mustache__loader_stack_s + mustache__loader_stack_s" where
  "close_frame s =
     (if open_sections (top_frame s) \<noteq> 0
      then Inl (s\<lparr>err := MUSTACHE_ERR_CLOSURE_MISMATCH\<rparr>)
      else
        let seg = mustache__data_segment_read (drop (data_start (top_frame s)) (l_data s));
            k = unat (inst_start seg);
            s1 = s\<lparr>l_i := (l_i s)[k := (l_i s ! k)\<lparr>d_end := of_nat (length (l_i s))\<rparr>]\<rparr>;
            s2 = snd (mustache__instruction_push s1 (inst0 MUSTACHE_SECTION_END))
        in Inr (s2\<lparr>l_index := l_index s2 - 1\<rparr>))"

text \<open>
  The loop \<open>while (s.index)\<close> with the parsing loop inside it, one turn of either for
  each unit of fuel; \<open>None\<close> is "still running".
\<close>

fun load_loop ::
  "nat \<Rightarrow> file_system \<Rightarrow> mustache__loader_stack_s
     \<Rightarrow> (mustache__loader_stack_s + mustache__loader_stack_s) option" where
  "load_loop 0 fs s = None"
| "load_loop (Suc n) fs s =
     (if l_index s = 0 then Some (Inr s)
      else if data_pos (top_frame s) < data_end (top_frame s) then
        (case parse_step fs s of
           None \<Rightarrow> None
         | Some (Inl s') \<Rightarrow> Some (Inl s')
         | Some (Inr s') \<Rightarrow> load_loop n fs s')
      else
        (case close_frame s of
           Inl s' \<Rightarrow> Some (Inl s')
         | Inr s' \<Rightarrow> load_loop n fs s'))"

text \<open>
  \<open>mustache_load_args_s\<close>: \<open>arg_filename\<close> and \<open>arg_data\<close> are \<open>None\<close> for
  \<open>NULL\<close>.
\<close>

record mustache_load_args_s =
  arg_filename :: "string option"
  arg_filename_len :: nat
  arg_data :: "string option"
  arg_data_len :: nat

text \<open>
  The loader's state after the initialisation in \<open>mustache_load\<close>. \<open>*args.err\<close> is
  written on every path before the function returns, so its value at entry is not
  kept; the frames are not initialised in the source.
\<close>

definition loader_init :: mustache__loader_stack_s where
  "loader_init =
     \<lparr>l_i = [], err = MUSTACHE_OK, l_data = [], path = [], l_index = 0,
      l_stack = replicate MUSTACHE_NESTING_LIMIT (new_frame 0 0 0)\<rparr>"

text \<open>
  \<open>mustache_load\<close>: the template (\<open>None\<close> for \<open>NULL\<close>) with the code left in
  \<open>*args.err\<close>.
\<close>

definition mustache_load ::
  "nat \<Rightarrow> file_system \<Rightarrow> mustache_load_args_s \<Rightarrow> (mustache_s option \<times> mustache_error_en) option" where
  "mustache_load fuel fs args =
     (let name = (case arg_filename args of None \<Rightarrow> [] | Some n \<Rightarrow> n);
          name_len = (if arg_filename_len args = 0 \<and> arg_filename args \<noteq> None
                      then length (c_str name) else arg_filename_len args);
          r0 = (case arg_data args of
                  Some d \<Rightarrow> Some (mustache__load_data loader_init name name_len d
                                    (arg_data_len args))
                | None \<Rightarrow> mustache__load_file fs loader_init name name_len)
      in case r0 of
           None \<Rightarrow> None
         | Some (Inl s) \<Rightarrow> Some (None, err s)
         | Some (Inr s) \<Rightarrow>
             (case load_loop fuel fs s of
                None \<Rightarrow> None
              | Some (Inl s') \<Rightarrow> Some (None, err s')
              | Some (Inr s') \<Rightarrow>
                  Some (Some \<lparr>instructions = l_i s', data_seg = l_data s'\<rparr>, MUSTACHE_OK)))"

subsection \<open>Reading a render\<close>

text \<open>
  A callback invocation with the arguments it is given, and with the value it returns
  (\<open>0\<close> for the \<open>void\<close> error callback).
\<close>

datatype 'u mustache_call =
    On_text "'u section_view" string u32
  | On_arg "'u section_view" string u32 u8
  | On_section_test "'u section_view" string u32 u8
  | On_section_start "'u section_view" string u32 u32
  | On_formatting_error 'u 'u

record 'u call_record =
  call :: "'u mustache_call"
  returned :: int32

text \<open>
  The callbacks \<open>cb\<close> made to keep a log: each callback does what it does in \<open>cb\<close> and
  appends the call it has received to the log, which it keeps beside the client's state.
  The log of a render with \<open>logged cb\<close> is written by the callbacks themselves: it holds
  the invocations made, in their order, with the arguments passed.
\<close>

definition logged ::
  "('u, 'h) mustache_callbacks \<Rightarrow> ('u, 'h \<times> 'u call_record list) mustache_callbacks" where
  "logged cb =
     \<lparr>mustache_on_arg = (\<lambda>v name len esc hl.
        case mustache_on_arg cb v name len esc (fst hl) of
          (r, x, h') \<Rightarrow> (r, x, (h', snd hl @ [\<lparr>call = On_arg v name len esc, returned = r\<rparr>]))),
      mustache_on_text = (\<lambda>v d len hl.
        case mustache_on_text cb v d len (fst hl) of
          (r, x, h') \<Rightarrow> (r, x, (h', snd hl @ [\<lparr>call = On_text v d len, returned = r\<rparr>]))),
      mustache_on_section_test = (\<lambda>v name len callable hl.
        case mustache_on_section_test cb v name len callable (fst hl) of
          (r, x, h') \<Rightarrow>
            (r, x, (h', snd hl @ [\<lparr>call = On_section_test v name len callable, returned = r\<rparr>]))),
      mustache_on_section_start = (\<lambda>v name len i hl.
        case mustache_on_section_start cb v name len i (fst hl) of
          (r, x, h') \<Rightarrow>
            (r, x, (h', snd hl @ [\<lparr>call = On_section_start v name len i, returned = r\<rparr>]))),
      mustache_on_formatting_error = (\<lambda>u1 u2 hl.
        (mustache_on_formatting_error cb u1 u2 (fst hl),
         snd hl @ [\<lparr>call = On_formatting_error u1 u2, returned = 0\<rparr>]))\<rparr>"

text \<open>The client's state in a render, and after a turn.\<close>

fun client_state :: "('u, 'h) build_run \<Rightarrow> 'h" where
  "client_state (Build_running s h) = h"
| "client_state (Build_returned v e h) = h"
| "client_state (Build_undefined h) = h"

fun step_client :: "('u, 'h) build_step_result \<Rightarrow> 'h" where
  "step_client (Step_next s h) = h"
| "step_client (Step_user_error h) = h"
| "step_client (Step_error e h) = h"
| "step_client (Step_undefined h) = h"

text \<open>The invocations made so far in a render with logged callbacks.\<close>

definition call_log :: "('u, 'h \<times> 'u call_record list) build_run \<Rightarrow> 'u call_record list" where
  "call_log r = snd (client_state r)"

definition is_formatting_error :: "'u call_record \<Rightarrow> bool" where
  "is_formatting_error e = (case call e of On_formatting_error a b \<Rightarrow> True | _ \<Rightarrow> False)"

definition is_section_test :: "'u call_record \<Rightarrow> bool" where
  "is_section_test e = (case call e of On_section_test v n l c \<Rightarrow> True | _ \<Rightarrow> False)"

definition is_section_start :: "'u call_record \<Rightarrow> bool" where
  "is_section_start e = (case call e of On_section_start v n l i \<Rightarrow> True | _ \<Rightarrow> False)"

definition is_arg :: "'u call_record \<Rightarrow> bool" where
  "is_arg e = (case call e of On_arg v n l c \<Rightarrow> True | _ \<Rightarrow> False)"

text \<open>A call of a host callback that did not return \<open>-1\<close>.\<close>

definition quiet :: "'u call_record \<Rightarrow> bool" where
  "quiet e = (\<not> is_formatting_error e \<and> returned e \<noteq> - 1)"

text \<open>The three instructions that open a section frame.\<close>

definition section_opener :: "instruction_en \<Rightarrow> bool" where
  "section_opener t =
     (t = MUSTACHE_SECTION_GOTO \<or> t = MUSTACHE_SECTION_START \<or> t = MUSTACHE_SECTION_START_INV)"

text \<open>
  The frames of the builder stack in use, \<open>s.stack[0]\<close> to \<open>s.stack[s.index]\<close> (none
  when \<open>s.index\<close> is outside the array: no turn reads a frame then), and a render with
  the other frames left out.
\<close>

definition live :: "'u mustache__builder_stack_s \<Rightarrow> 'u mustache__builder_stack_s" where
  "live s =
     s\<lparr>b_stack := take (if unat (b_index s) < MUSTACHE_NESTING_LIMIT then unat (b_index s) + 1
                        else 0) (b_stack s)\<rparr>"

fun live_run :: "('u, 'h) build_run \<Rightarrow> ('u, 'h) build_run" where
  "live_run (Build_running s h) = Build_running (live s) h"
| "live_run (Build_returned v e h) = Build_returned v e h"
| "live_run (Build_undefined h) = Build_undefined h"

text \<open>Two builder stacks that differ at most in the frames not in use.\<close>

definition agree :: "'u mustache__builder_stack_s \<Rightarrow> 'u mustache__builder_stack_s \<Rightarrow> bool" where
  "agree s t =
     (b_data s = b_data t \<and> pos s = pos t \<and> b_index s = b_index t
      \<and> length (b_stack s) = length (b_stack t)
      \<and> (unat (b_index s) < MUSTACHE_NESTING_LIMIT \<longrightarrow>
           (\<forall>i\<le>unat (b_index s). i < length (b_stack s) \<longrightarrow> b_stack s ! i = b_stack t ! i)))"

text \<open>Two turns that end alike, on builder stacks that agree.\<close>

fun agree_step :: "('u, 'h) build_step_result \<Rightarrow> ('u, 'h) build_step_result \<Rightarrow> bool" where
  "agree_step (Step_next s h) r = (\<exists>t. r = Step_next t h \<and> agree s t)"
| "agree_step (Step_user_error h) r = (r = Step_user_error h)"
| "agree_step (Step_error e h) r = (r = Step_error e h)"
| "agree_step (Step_undefined h) r = (r = Step_undefined h)"

text \<open>The instructions at which a turn calls \<open>mustache_on_section_test\<close>.\<close>

definition tests_section :: "'u mustache__builder_stack_s \<Rightarrow> mustache__instruction_s \<Rightarrow> bool" where
  "tests_section s inst =
     (section_opener (instruction inst) \<and> d_name_pos inst \<noteq> 0
      \<and> unat (b_index s) + 1 < MUSTACHE_NESTING_LIMIT \<and> frame_at s (uint (b_index s)) \<noteq> None)"

subsection \<open>A client and two templates\<close>

text \<open>
  A client whose state is the output written so far: text is appended as it is, an
  argument as \<open><name>\<close>; \<open>mustache_on_section_test\<close> returns \<open>t\<close> and
  \<open>mustache_on_section_start\<close> returns \<open>st\<close>; none changes \<open>*section\<close>.
\<close>

definition printing_callbacks :: "int32 \<Rightarrow> int32 \<Rightarrow> (nat, string) mustache_callbacks" where
  "printing_callbacks t st =
     \<lparr>mustache_on_arg =
        (\<lambda>v name len esc h. (0, last (view_secs v), h @ ''<'' @ name @ ''>'')),
      mustache_on_text = (\<lambda>v d len h. (0, last (view_secs v), h @ d)),
      mustache_on_section_test = (\<lambda>v name len callable h. (t, last (view_secs v), h)),
      mustache_on_section_start = (\<lambda>v name len i h. (st, last (view_secs v), h)),
      mustache_on_formatting_error = (\<lambda>u1 u2 h. h @ ''!'')\<rparr>"

text \<open>
  Two contents of the memory of the frames \<open>s.stack[1]\<close>, ... when \<open>mustache_build\<close> is
  entered.
\<close>

definition zero_frames :: "nat \<Rightarrow> nat mustache__section_stack_frame_s" where
  "zero_frames i =
     \<lparr>sec = \<lparr>udata1 = 0, udata2 = 0\<rparr>, start = 0, f_end = 0, f_index = 0, count = 0, frame = 0\<rparr>"

definition stale_frames :: "nat \<Rightarrow> nat mustache__section_stack_frame_s" where
  "stale_frames i =
     \<lparr>sec = \<lparr>udata1 = 5, udata2 = i\<rparr>, start = 7, f_end = 2, f_index = 0, count = 9,
      frame = 3\<rparr>"

text \<open>The template \<open>{{^x}}none{{/x}}\<close>, given as data under the name \<open>r\<close>.\<close>

definition inv_template_load_args :: mustache_load_args_s where
  "inv_template_load_args =
     \<lparr>arg_filename = Some ''r'', arg_filename_len = 1,
      arg_data = Some ''{{^x}}none{{/x}}'', arg_data_len = 16\<rparr>"

text \<open>What \<open>mustache_load\<close> makes of it (\<open>inv_template_loaded\<close> below).\<close>

definition inv_template_image :: mustache_s where
  "inv_template_image =
     \<lparr>instructions =
        [\<lparr>instruction = MUSTACHE_SECTION_START, d_end = 4, d_len = 0,
          d_name_pos = 0, d_name_len = 0, d_offset = 0\<rparr>,
         \<lparr>instruction = MUSTACHE_SECTION_START_INV, d_end = 3, d_len = 4,
          d_name_pos = 17, d_name_len = 1, d_offset = 3\<rparr>,
         \<lparr>instruction = MUSTACHE_WRITE_TEXT, d_end = 0, d_len = 0,
          d_name_pos = 20, d_name_len = 4, d_offset = 0\<rparr>,
         \<lparr>instruction = MUSTACHE_SECTION_END, d_end = 3, d_len = 4,
          d_name_pos = 17, d_name_len = 1, d_offset = 3\<rparr>,
         \<lparr>instruction = MUSTACHE_SECTION_END, d_end = 0, d_len = 0,
          d_name_pos = 0, d_name_len = 0, d_offset = 0\<rparr>],
      data_seg =
        [CHR 0x00, CHR 0x00, CHR 0x00, CHR 0x00, CHR 0x1E, CHR 0x0F,
         CHR 0x07, CHR 0x03, CHR 0x01, CHR 0x00, CHR 0x00, CHR 0x00,
         CHR ''r'', CHR 0x00] @ ''{{^x}}none{{/x}}''\<rparr>"

definition inv_template_args :: "nat mustache_build_args_s" where
  "inv_template_args =
     \<lparr>mustache = Some inv_template_image, arg_udata1 = 7, arg_udata2 = 8\<rparr>"

text \<open>The call of the error callback, as a log holds it.\<close>

definition formatting_error_call :: "'u \<Rightarrow> 'u \<Rightarrow> 'u call_record" where
  "formatting_error_call u1 u2 = \<lparr>call = On_formatting_error u1 u2, returned = 0\<rparr>"

text \<open>A log \<open>l'\<close> that is the log \<open>l\<close> with more calls after it, and what holds of these.\<close>

definition grows :: "'a list \<Rightarrow> 'a list \<Rightarrow> ('a list \<Rightarrow> bool) \<Rightarrow> bool" where
  "grows l l' P = (\<exists>new. l' = l @ new \<and> P new)"

text \<open>
  The builder stack of a render of \<open>{{^x}}none{{/x}}\<close> when it reaches the inverted
  section, instruction 1: the template's own frame is open above the root frame.
\<close>

definition inv_template_state :: "nat mustache__builder_stack_s" where
  "inv_template_state =
     \<lparr>b_data = inv_template_image, pos = 1, b_index = 1,
      b_stack =
        (\<lparr>sec = \<lparr>udata1 = 7, udata2 = 8\<rparr>, start = 0, f_end = 4, f_index = 0, count = 0,
          frame = 0\<rparr> # map zero_frames [1..<MUSTACHE_NESTING_LIMIT])
        [1 := \<lparr>sec = \<lparr>udata1 = 7, udata2 = 8\<rparr>, start = 0, f_end = 4, f_index = 1,
               count = 1, frame = 1\<rparr>]\<rparr>"

text \<open>The template \<open>{{#x}}a{{/x}}\<close>, given as data under the name \<open>r\<close>.\<close>

definition sec_template_load_args :: mustache_load_args_s where
  "sec_template_load_args =
     \<lparr>arg_filename = Some ''r'', arg_filename_len = 1,
      arg_data = Some ''{{#x}}a{{/x}}'', arg_data_len = 13\<rparr>"

text \<open>What \<open>mustache_load\<close> makes of it (\<open>sec_template_loaded\<close> below).\<close>

definition sec_template_image :: mustache_s where
  "sec_template_image =
     \<lparr>instructions =
        [\<lparr>instruction = MUSTACHE_SECTION_START, d_end = 4, d_len = 0,
          d_name_pos = 0, d_name_len = 0, d_offset = 0\<rparr>,
         \<lparr>instruction = MUSTACHE_SECTION_START, d_end = 3, d_len = 1,
          d_name_pos = 17, d_name_len = 1, d_offset = 3\<rparr>,
         \<lparr>instruction = MUSTACHE_WRITE_TEXT, d_end = 0, d_len = 0,
          d_name_pos = 20, d_name_len = 1, d_offset = 0\<rparr>,
         \<lparr>instruction = MUSTACHE_SECTION_END, d_end = 3, d_len = 1,
          d_name_pos = 17, d_name_len = 1, d_offset = 3\<rparr>,
         \<lparr>instruction = MUSTACHE_SECTION_END, d_end = 0, d_len = 0,
          d_name_pos = 0, d_name_len = 0, d_offset = 0\<rparr>],
      data_seg =
        [CHR 0x00, CHR 0x00, CHR 0x00, CHR 0x00, CHR 0x1B, CHR 0x0D,
         CHR 0x06, CHR 0x03, CHR 0x01, CHR 0x00, CHR 0x00, CHR 0x00,
         CHR ''r'', CHR 0x00] @ ''{{#x}}a{{/x}}''\<rparr>"

definition sec_template_args :: "nat mustache_build_args_s" where
  "sec_template_args =
     \<lparr>mustache = Some sec_template_image, arg_udata1 = 7, arg_udata2 = 8\<rparr>"

definition sec_template_state :: "nat mustache__builder_stack_s" where
  "sec_template_state =
     \<lparr>b_data = sec_template_image, pos = 1, b_index = 1,
      b_stack =
        (\<lparr>sec = \<lparr>udata1 = 7, udata2 = 8\<rparr>, start = 0, f_end = 4, f_index = 0, count = 0,
          frame = 0\<rparr> # map zero_frames [1..<MUSTACHE_NESTING_LIMIT])
        [1 := \<lparr>sec = \<lparr>udata1 = 7, udata2 = 8\<rparr>, start = 0, f_end = 4, f_index = 1,
               count = 1, frame = 1\<rparr>]\<rparr>"

text \<open>What the callbacks read through \<open>section\<close> at the section of these templates.\<close>

definition x_section_view :: "string option \<Rightarrow> nat section_view" where
  "x_section_view txt =
     \<lparr>view_secs = [\<lparr>udata1 = 7, udata2 = 8\<rparr>, \<lparr>udata1 = 7, udata2 = 8\<rparr>,
                   \<lparr>udata1 = 7, udata2 = 8\<rparr>],
      view_text = txt\<rparr>"

subsection \<open>The iterations of a section\<close>

text \<open>
  The iteration a frame is in: the section's first instruction, the instruction to jump
  to after completion, the number of iterations started and the number of iterations
  the section should be performed.
\<close>

definition iteration_of :: "'u mustache__section_stack_frame_s \<Rightarrow> u32 \<times> u32 \<times> u32 \<times> u32" where
  "iteration_of f = (start f, f_end f, f_index f, count f)"





subsection \<open>Templates with partials\<close>

text \<open>Two files, \<open>p\<close> holding \<open>x\<close> and \<open>q\<close> holding \<open>y\<close>.\<close>

definition partials_fs :: file_system where
  "partials_fs = (\<lambda>p. if p = ''p'' then Some ''x'' else if p = ''q'' then Some ''y'' else None)"

text \<open>
  The template \<open>{{>p}}\<close>, given as data under the name \<open>r\<close>, and what
  \<open>mustache_load\<close> makes of it: two templates, with headers at 0 and 20.
\<close>

definition two_templates_args :: mustache_load_args_s where
  "two_templates_args =
     \<lparr>arg_filename = Some ''r'', arg_filename_len = 1,
      arg_data = Some ''{{>p}}'', arg_data_len = 6\<rparr>"

definition two_templates_image :: mustache_s where
  "two_templates_image =
     \<lparr>instructions =
        [(inst0 MUSTACHE_SECTION_START)\<lparr>d_end := 4\<rparr>,
         (inst0 MUSTACHE_SECTION_START)\<lparr>d_end := 3\<rparr>,
         (inst0 MUSTACHE_WRITE_TEXT)\<lparr>d_name_pos := 34, d_name_len := 1\<rparr>,
         inst0 MUSTACHE_SECTION_END,
         inst0 MUSTACHE_SECTION_END],
      data_seg =
        [CHR 0x00, CHR 0x00, CHR 0x00, CHR 0x00, CHR 0x14, CHR 0x0A,
         CHR 0x05, CHR 0x02, CHR 0x01, CHR 0x00, CHR 0x00, CHR 0x00,
         CHR ''r'', CHR 0x00] @ ''{{>p}}'' @
        [CHR 0x01, CHR 0x00, CHR 0x00, CHR 0x00, CHR 0x23, CHR 0x11,
         CHR 0x08, CHR 0x04, CHR 0x01, CHR 0x00, CHR 0x00, CHR 0x00,
         CHR ''p'', CHR 0x00] @ ''x''\<rparr>"

text \<open>
  The template \<open>{{>p}}{{>q}}\<close>, given as data under the name \<open>r\<close>, and what
  \<open>mustache_load\<close> makes of it: three templates, with headers at 0, 26 and 41.
\<close>

definition three_templates_args :: mustache_load_args_s where
  "three_templates_args =
     \<lparr>arg_filename = Some ''r'', arg_filename_len = 1,
      arg_data = Some ''{{>p}}{{>q}}'', arg_data_len = 12\<rparr>"

definition three_templates_image :: mustache_s where
  "three_templates_image =
     \<lparr>instructions =
        [(inst0 MUSTACHE_SECTION_START)\<lparr>d_end := 7\<rparr>,
         (inst0 MUSTACHE_SECTION_START)\<lparr>d_end := 3\<rparr>,
         (inst0 MUSTACHE_WRITE_TEXT)\<lparr>d_name_pos := 40, d_name_len := 1\<rparr>,
         inst0 MUSTACHE_SECTION_END,
         (inst0 MUSTACHE_SECTION_START)\<lparr>d_end := 6\<rparr>,
         (inst0 MUSTACHE_WRITE_TEXT)\<lparr>d_name_pos := 55, d_name_len := 1\<rparr>,
         inst0 MUSTACHE_SECTION_END,
         inst0 MUSTACHE_SECTION_END],
      data_seg =
        [CHR 0x00, CHR 0x00, CHR 0x00, CHR 0x00, CHR 0x1A, CHR 0x0D,
         CHR 0x06, CHR 0x03, CHR 0x01, CHR 0x00, CHR 0x00, CHR 0x00,
         CHR ''r'', CHR 0x00] @ ''{{>p}}{{>q}}'' @
        [CHR 0x01, CHR 0x00, CHR 0x00, CHR 0x00, CHR 0x29, CHR 0x14,
         CHR 0x0A, CHR 0x05, CHR 0x01, CHR 0x00, CHR 0x00, CHR 0x00,
         CHR ''p'', CHR 0x00] @ ''x'' @
        [CHR 0x04, CHR 0x02, CHR 0x01, CHR 0x00, CHR 0x38, CHR 0x1C,
         CHR 0x0E, CHR 0x07, CHR 0x01, CHR 0x00, CHR 0x00, CHR 0x00,
         CHR ''q'', CHR 0x00] @ ''y''\<rparr>"

subsection \<open>A template given as data, without a name\<close>

text \<open>White space trimmed off the right end, and off both ends.\<close>

definition rtrim :: "string \<Rightarrow> string" where
  "rtrim x = rev (dropWhile isspace (rev x))"

definition trim :: "string \<Rightarrow> string" where
  "trim x = rtrim (dropWhile isspace x)"

text \<open>\<open>mustache_load(.data = d, .data_len = length d)\<close>.\<close>

definition data_args :: "string \<Rightarrow> mustache_load_args_s" where
  "data_args d =
     \<lparr>arg_filename = None, arg_filename_len = 0, arg_data = Some d, arg_data_len = length d\<rparr>"

text \<open>The header \<open>mustache__load_data\<close> writes for it, 13 bytes.\<close>

definition root_header :: "nat \<Rightarrow> string" where
  "root_header n =
     mustache__data_segment_write
       \<lparr>filename = [], inst_start = 0, next_pos = of_nat (n + 13), filename_len = 0,
        path_len = 0\<rparr>"

text \<open>
  The loader's state while it parses the root template and nothing else: the
  instructions \<open>is\<close>, the data \<open>d\<close>, and the one frame reading at \<open>p\<close> up to \<open>e\<close>
  with the delimiters \<open>{{\<close> and \<open>}}\<close> and no section open.
\<close>

definition root_state ::
  "mustache__instruction_s list \<Rightarrow> mustache_error_en \<Rightarrow> string \<Rightarrow> nat \<Rightarrow> nat
     \<Rightarrow> mustache__loader_stack_s" where
  "root_state is er d p e =
     \<lparr>l_i = is, err = er, l_data = d, path = [], l_index = 1,
      l_stack = (replicate MUSTACHE_NESTING_LIMIT (new_frame 0 0 0))[1 := new_frame 0 p e]\<rparr>"

text \<open>The instructions the loader makes of a text and of a variable.\<close>

definition text_inst :: "nat \<Rightarrow> nat \<Rightarrow> mustache__instruction_s" where
  "text_inst p n = (inst0 MUSTACHE_WRITE_TEXT)\<lparr>d_name_pos := of_nat p, d_name_len := of_nat n\<rparr>"

definition arg_inst :: "bool \<Rightarrow> nat \<Rightarrow> nat \<Rightarrow> mustache__instruction_s" where
  "arg_inst escape_str beg e =
     (inst0 (if escape_str then MUSTACHE_WRITE_ARG else MUSTACHE_WRITE_ARG_UNESCAPED))
       \<lparr>d_name_pos := of_nat beg, d_name_len := of_int (int e - int beg)\<rparr>"

text \<open>
  The text instruction before a tag found at \<open>ob\<close> when reading from \<open>p\<close>, and the
  one for the rest of a template read from \<open>p\<close> to its end \<open>e\<close>: none for no bytes.
\<close>

definition pre_text :: "nat \<Rightarrow> nat \<Rightarrow> mustache__instruction_s list" where
  "pre_text p ob = (if ob \<noteq> p then [text_inst p (ob - p)] else [])"

definition post_text :: "nat \<Rightarrow> nat \<Rightarrow> mustache__instruction_s list" where
  "post_text p e = (if p < e then [text_inst p (e - p)] else [])"

text \<open>
  The instructions of a template when its frame is closed: the first points to the
  end, and a \<open>MUSTACHE_SECTION_END\<close> is added.
\<close>

definition closed_template :: "mustache__instruction_s list \<Rightarrow> mustache__instruction_s list" where
  "closed_template is =
     is[0 := (is ! 0)\<lparr>d_end := of_nat (length is)\<rparr>] @ [inst0 MUSTACHE_SECTION_END]"

section \<open>Properties\<close>

subsection \<open>The template header's bytes\<close>

lemma of_char_char_of_nat: "n < 256 \<Longrightarrow> (of_char (char_of (n::nat)) :: nat) = n"
  by simp

lemma and_FF_take_bit: "(x::'a::len word) AND 0xFF = take_bit 8 x"
  by (simp add: take_bit_eq_mask mask_eq_exp_minus_1)

lemma unat_and_FF: "unat ((x::'a::len word) AND 0xFF) < 256"
proof -
  have "unat (x AND 0xFF) = take_bit 8 (unat x)"
    by (simp only: and_FF_take_bit unsigned_take_bit_eq)
  also have "\<dots> < 2 ^ 8" by (rule take_bit_nat_less_exp)
  finally show ?thesis by simp
qed

lemma of_char_byte32: "(of_char (byte32 x) :: u32) = take_bit 8 x"
proof -
  have "(of_char (char_of (unat (x AND 0xFF))) :: nat) = unat (x AND 0xFF)"
    by (rule of_char_char_of_nat) (rule unat_and_FF)
  hence "(of_nat (of_char (char_of (unat (x AND 0xFF)))) :: u32) = of_nat (unat (x AND 0xFF))"
    by (simp only:)
  hence "(of_char (char_of (unat (x AND 0xFF))) :: u32) = x AND 0xFF"
    by (simp only: of_nat_of_char of_nat_unat ucast_id)
  thus ?thesis
    by (simp only: byte32_def and_FF_take_bit)
qed

lemma of_char_byte16: "(of_char (byte16 x) :: u16) = take_bit 8 x"
proof -
  have "(of_char (char_of (unat (x AND 0xFF))) :: nat) = unat (x AND 0xFF)"
    by (rule of_char_char_of_nat) (rule unat_and_FF)
  hence "(of_nat (of_char (char_of (unat (x AND 0xFF)))) :: u16) = of_nat (unat (x AND 0xFF))"
    by (simp only:)
  hence "(of_char (char_of (unat (x AND 0xFF))) :: u16) = x AND 0xFF"
    by (simp only: of_nat_of_char of_nat_unat ucast_id)
  thus ?thesis
    by (simp only: byte16_def and_FF_take_bit)
qed

lemma Suc2_diff: "2 \<le> n \<Longrightarrow> Suc (Suc (n - 2)) = n"
  by arith

text \<open>
  Four bytes written with the shifts 0, 1, 2, 3 and read back with the same shifts keep
  the low 11 bits of a 32-bit field; two bytes keep the low 9 bits of a 16-bit field.
\<close>

lemma decode32:
  "(of_char (byte32 x) :: u32) OR push_bit 1 (of_char (byte32 (drop_bit 1 x)))
     OR push_bit 2 (of_char (byte32 (drop_bit 2 x)))
     OR push_bit 3 (of_char (byte32 (drop_bit 3 x))) = take_bit 11 x"
  unfolding of_char_byte32
  apply (rule bit_eqI)
  apply (simp only: bit_or_iff bit_push_bit_iff bit_take_bit_iff bit_drop_bit_eq o_def)
  apply (auto simp: possible_bit_word Suc2_diff)
  done

lemma decode16:
  "(of_char (byte16 x) :: u16) OR push_bit 1 (of_char (byte16 (drop_bit 1 x)))
     = take_bit 9 x"
  unfolding of_char_byte16
  apply (rule bit_eqI)
  apply (simp only: bit_or_iff bit_push_bit_iff bit_take_bit_iff bit_drop_bit_eq o_def)
  apply (auto simp: possible_bit_word Suc2_diff)
  done

lemma decode32':
  "(of_char (byte32 x) :: u32) OR of_char (byte32 (drop_bit (Suc 0) x)) * 2
     OR push_bit 2 (of_char (byte32 (drop_bit 2 x)))
     OR push_bit 3 (of_char (byte32 (drop_bit 3 x))) = take_bit 11 x"
  using decode32 [of x] by simp

lemma decode16':
  "(of_char (byte16 x) :: u16) OR of_char (byte16 (drop_bit (Suc 0) x)) * 2 = take_bit 9 x"
  using decode16 [of x] by simp

lemma data_segment_read_write:
  "mustache__data_segment_read (mustache__data_segment_write seg @ rest) =
     \<lparr>filename = take (unat (filename_len seg)) (filename seg) @ [NUL] @ rest,
      inst_start = take_bit 11 (inst_start seg),
      next_pos = take_bit 11 (next_pos seg),
      filename_len = take_bit 9 (filename_len seg),
      path_len = take_bit 9 (path_len seg)\<rparr>"
  by (simp add: mustache__data_segment_read_def mustache__data_segment_write_def
      rd32_def rd16_def byte_at_def decode32' decode16')

text \<open>
  C2. The header of a template loaded when 2048 instructions exist, 5000 bytes into the
  data, under a file name of 600 bytes with a directory part of 520: written by
  \<open>mustache__data_segment_write\<close> and read back by \<open>mustache__data_segment_read\<close>,
  none of the four fields is the value written (\<open>0\<close> for 2048, \<open>904\<close> for 5000,
  \<open>88\<close> for 600, \<open>8\<close> for 520). The encoding does not round-trip.
\<close>

theorem data_segment_roundtrip_fails:
  "mustache__data_segment_read
     (mustache__data_segment_write
        \<lparr>filename = replicate 600 (CHR ''d''), inst_start = 2048, next_pos = 5000,
         filename_len = 600, path_len = 520\<rparr>) =
   \<lparr>filename = replicate 600 (CHR ''d'') @ [NUL], inst_start = 0, next_pos = 904,
    filename_len = 88, path_len = 8\<rparr>"
  using data_segment_read_write
    [of "\<lparr>filename = replicate 600 (CHR ''d''), inst_start = 2048, next_pos = 5000,
          filename_len = 600, path_len = 520\<rparr>" "[]"]
  by simp

subsection \<open>The section text helper\<close>

text \<open>
  C10. With \<open>p_len\<close> \<open>NULL\<close>, \<open>mustache_section_text\<close> goes to its label \<open>error\<close>
  and stores \<open>0\<close> through \<open>p_len\<close>, whatever \<open>section\<close> is and whatever instruction
  is executing: it does not return \<open>NULL\<close>.
\<close>

theorem section_text_null_p_len:
  "mustache_section_text s section False = Text_null_store"
  by (simp add: mustache_section_text_def section_text_error_def)

subsection \<open>Turns of the render loop\<close>

lemma build_loop_add:
  "build_loop (n + k) cb u1 u2 s h =
     (case build_loop n cb u1 u2 s h of
        Build_running s' h' \<Rightarrow> build_loop k cb u1 u2 s' h'
      | Build_returned v e h' \<Rightarrow> Build_returned v e h'
      | Build_undefined h' \<Rightarrow> Build_undefined h')"
proof (induction n arbitrary: s h)
  case 0
  show ?case by simp
next
  case (Suc n)
  show ?case
    by (simp add: Suc.IH build_error_def split: option.splits build_step_result.splits)
qed

lemma build_loop_returned_more:
  "build_loop n cb u1 u2 s h = Build_returned v e h' \<Longrightarrow>
     build_loop (n + k) cb u1 u2 s h = Build_returned v e h'"
  by (simp add: build_loop_add)

lemma build_loop_undefined_more:
  "build_loop n cb u1 u2 s h = Build_undefined h' \<Longrightarrow>
     build_loop (n + k) cb u1 u2 s h = Build_undefined h'"
  by (simp add: build_loop_add)

subsection \<open>The log of a render with logged callbacks\<close>

lemma growsI: "l' = l @ new \<Longrightarrow> P new \<Longrightarrow> grows l l' P"
  by (simp add: grows_def)

lemma growsE: "grows l l' P \<Longrightarrow> (\<And>new. l' = l @ new \<Longrightarrow> P new \<Longrightarrow> R) \<Longrightarrow> R"
  unfolding grows_def by blast

lemma grows_after: "grows (l @ a) l' P \<Longrightarrow> (\<And>new. P new \<Longrightarrow> Q (a @ new)) \<Longrightarrow> grows l l' Q"
  unfolding grows_def by auto

lemma grows_mono: "grows l l' P \<Longrightarrow> (\<And>new. P new \<Longrightarrow> Q new) \<Longrightarrow> grows l l' Q"
  unfolding grows_def by auto

lemma section_start_not_error: "is_section_start e \<Longrightarrow> \<not> is_formatting_error e"
  by (cases "call e") (simp_all add: is_section_start_def is_formatting_error_def)

lemma section_loop_log:
  "grows l (snd (step_client (section_loop (logged cb) s (h, l))))
     (\<lambda>new. case section_loop (logged cb) s (h, l) of
        Step_user_error g \<Rightarrow> (\<exists>e. new = [e] \<and> is_section_start e \<and> returned e = - 1)
      | _ \<Rightarrow> (\<forall>x\<in>set new. is_section_start x \<and> returned x \<noteq> - 1))"
  by (auto simp: grows_def section_loop_def section_repeat_def logged_def Let_def is_section_start_def
      split: option.splits prod.splits)

lemma section_loop_quiet:
  "grows l (snd (step_client (section_loop (logged cb) s (h, l))))
     (\<lambda>new. case section_loop (logged cb) s (h, l) of
        Step_user_error g \<Rightarrow> (\<exists>e. new = [e] \<and> \<not> is_formatting_error e \<and> returned e = - 1)
      | _ \<Rightarrow> (\<forall>x\<in>set new. quiet x))"
  using section_loop_log [of l cb s h]
  by (cases "section_loop (logged cb) s (h, l)")
    (auto simp: grows_def quiet_def dest: section_start_not_error)

lemma logged_section_test:
  "mustache_on_section_test (logged cb) v name len c (h, l) =
     (case mustache_on_section_test cb v name len c h of
        (r, x, h') \<Rightarrow> (r, x, (h', l @ [\<lparr>call = On_section_test v name len c, returned = r\<rparr>])))"
  by (simp add: logged_def)

lemma section_open_log:
  "grows l (snd (step_client (section_open (logged cb) s (h, l) inst)))
     (\<lambda>new. case section_open (logged cb) s (h, l) inst of
        Step_user_error g \<Rightarrow> (\<exists>q e. new = q @ [e] \<and> (\<forall>x\<in>set q. quiet x)
                                  \<and> \<not> is_formatting_error e \<and> returned e = - 1)
      | _ \<Rightarrow> (\<forall>x\<in>set new. quiet x))"
proof (cases "unat (b_index s) + 1 \<ge> MUSTACHE_NESTING_LIMIT")
  case True
  then show ?thesis by (simp add: section_open_def grows_def)
next
  case False
  show ?thesis
  proof (cases "frame_at s (uint (b_index s))")
    case None
    with False show ?thesis by (simp add: section_open_def grows_def)
  next
    case (Some cur)
    define s1 where "s1 = push_frame s cur inst"
    show ?thesis
    proof (cases "d_name_pos inst = 0")
      case True
      with False Some have "section_open (logged cb) s (h, l) inst = section_loop (logged cb) s1 (h, l)"
        by (simp add: section_open_def section_test_def s1_def)
      with section_loop_quiet [of l cb s1 h] show ?thesis
        by (cases "section_loop (logged cb) s1 (h, l)") (auto simp: grows_def)
    next
      case named: False
      obtain val x h' where t: "mustache_on_section_test cb (callback_view s1)
          (name_bytes (b_data s1) inst) (ucast (d_name_len inst))
          (if instruction inst = MUSTACHE_SECTION_START then 1 else 0) h = (val, x, h')"
        by (rule prod_cases3)
      define e where "e = \<lparr>call = On_section_test (callback_view s1)
          (name_bytes (b_data s1) inst) (ucast (d_name_len inst))
          (if instruction inst = MUSTACHE_SECTION_START then 1 else 0), returned = val\<rparr>"
      have ne: "\<not> is_formatting_error e" by (simp add: e_def is_formatting_error_def)
      show ?thesis
      proof (cases "val = - 1")
        case True
        with False Some named t
        have "section_open (logged cb) s (h, l) inst = Step_user_error (h', l @ [e])"
          by (simp add: section_open_def section_test_def s1_def [symmetric] logged_section_test e_def)
        with ne True show ?thesis by (simp add: grows_def e_def)
      next
        case nv: False
        define s2 where "s2 = set_count (set_sec s1 x) (section_count inst val)"
        from False Some named t nv
        have o: "section_open (logged cb) s (h, l) inst = section_loop (logged cb) s2 (h', l @ [e])"
          by (simp add: section_open_def section_test_def s1_def [symmetric] logged_section_test e_def s2_def)
        from nv ne have q: "quiet e" by (simp add: quiet_def e_def)
        from section_loop_quiet [of "l @ [e]" cb s2 h'] show ?thesis
          unfolding o
          by (rule grows_after)
            (cases "section_loop (logged cb) s2 (h', l @ [e])", use q in auto)
      qed
    qed
  qed
qed

lemma build_step_log:
  "grows l (snd (step_client (build_step (logged cb) s (h, l) inst)))
     (\<lambda>new. case build_step (logged cb) s (h, l) inst of
        Step_user_error g \<Rightarrow> (\<exists>q e. new = q @ [e] \<and> (\<forall>x\<in>set q. quiet x)
                                  \<and> \<not> is_formatting_error e)
      | _ \<Rightarrow> (\<forall>x\<in>set new. quiet x))"
proof (cases "instruction inst")
  case MUSTACHE_WRITE_TEXT
  then show ?thesis
    by (auto simp: grows_def build_step_def logged_def quiet_def is_formatting_error_def
        split: option.splits prod.splits)
next
  case MUSTACHE_WRITE_ARG
  then show ?thesis
    by (auto simp: grows_def build_step_def logged_def quiet_def is_formatting_error_def
        split: option.splits prod.splits)
next
  case MUSTACHE_WRITE_ARG_UNESCAPED
  then show ?thesis
    by (auto simp: grows_def build_step_def logged_def quiet_def is_formatting_error_def
        split: option.splits prod.splits)
next
  case MUSTACHE_SECTION_GOTO
  with section_open_log [of l cb s h inst] show ?thesis
    by (auto simp: build_step_def grows_def split: build_step_result.splits)
next
  case MUSTACHE_SECTION_START
  with section_open_log [of l cb s h inst] show ?thesis
    by (auto simp: build_step_def grows_def split: build_step_result.splits)
next
  case MUSTACHE_SECTION_START_INV
  with section_open_log [of l cb s h inst] show ?thesis
    by (auto simp: build_step_def grows_def split: build_step_result.splits)
next
  case MUSTACHE_SECTION_END
  with section_loop_log [of l cb s h] show ?thesis
    by (cases "section_loop (logged cb) s (h, l)")
      (auto simp: build_step_def grows_def quiet_def dest: section_start_not_error)
qed

lemma logged_formatting_error:
  "mustache_on_formatting_error (logged cb) u1 u2 (h, l) =
     (mustache_on_formatting_error cb u1 u2 h, l @ [formatting_error_call u1 u2])"
  by (simp add: logged_def formatting_error_call_def)

lemma build_error_logged:
  "build_error (logged cb) u1 u2 e (h, l) =
     Build_returned (- 1) e (mustache_on_formatting_error cb u1 u2 h, l @ [formatting_error_call u1 u2])"
  by (simp add: build_error_def logged_formatting_error)

lemma build_loop_log:
  "grows l (call_log (build_loop n (logged cb) u1 u2 s (h, l)))
     (\<lambda>new. case build_loop n (logged cb) u1 u2 s (h, l) of
        Build_returned v er g \<Rightarrow>
          (v = 0 \<and> er = MUSTACHE_OK \<and> (\<forall>x\<in>set new. quiet x))
          \<or> (v = - 1 \<and> (\<exists>q. new = q @ [formatting_error_call u1 u2] \<and> (\<forall>x\<in>set q. quiet x)))
          \<or> (v = - 1 \<and> er = MUSTACHE_ERR_USER_ERROR
              \<and> (\<exists>q e. new = q @ [e, formatting_error_call u1 u2] \<and> (\<forall>x\<in>set q. quiet x)
                    \<and> \<not> is_formatting_error e))
      | _ \<Rightarrow> (\<forall>x\<in>set new. quiet x))"
proof (induction n arbitrary: s h l)
  case 0
  show ?case by (simp add: grows_def call_log_def)
next
  case (Suc n)
  show ?case
  proof (cases "inst_at (b_data s) (pos s)")
    case None
    then show ?thesis by (simp add: grows_def call_log_def)
  next
    case (Some inst)
    show ?thesis
    proof (cases "build_step (logged cb) s (h, l) inst")
      case (Step_next s' g)
      obtain h' l1 where g: "g = (h', l1)" by (cases g)
      from build_step_log [of l cb s h inst] Step_next g
      obtain a where a: "l1 = l @ a" "\<forall>x\<in>set a. quiet x"
        by (auto simp: grows_def)
      have r: "build_loop (Suc n) (logged cb) u1 u2 s (h, l) = build_loop n (logged cb) u1 u2 s' (h', l @ a)"
        using Some Step_next g a by simp
      show ?thesis
        unfolding r
        by (rule grows_after [OF Suc.IH])
          (cases "build_loop n (logged cb) u1 u2 s' (h', l @ a)", use a(2) in auto)
    next
      case (Step_user_error g)
      obtain h' l1 where g: "g = (h', l1)" by (cases g)
      from build_step_log [of l cb s h inst] Step_user_error g
      obtain q e where a: "l1 = l @ q @ [e]" "\<forall>x\<in>set q. quiet x" "\<not> is_formatting_error e"
        by (auto simp: grows_def)
      with Some Step_user_error g show ?thesis
        by (simp add: build_error_logged grows_def call_log_def)
    next
      case (Step_error er g)
      obtain h' l1 where g: "g = (h', l1)" by (cases g)
      from build_step_log [of l cb s h inst] Step_error g
      obtain a where a: "l1 = l @ a" "\<forall>x\<in>set a. quiet x"
        by (auto simp: grows_def)
      with Some Step_error g show ?thesis
        by (simp add: build_error_logged grows_def call_log_def)
    next
      case (Step_undefined g)
      obtain h' l1 where g: "g = (h', l1)" by (cases g)
      from build_step_log [of l cb s h inst] Step_undefined g
      obtain a where a: "l1 = l @ a" "\<forall>x\<in>set a. quiet x"
        by (auto simp: grows_def)
      with Some Step_undefined g show ?thesis
        by (simp add: grows_def call_log_def)
    qed
  qed
qed

lemma mustache_build_log:
  "grows l (call_log (mustache_build n (logged cb) args mem (h, l)))
     (\<lambda>new. case mustache_build n (logged cb) args mem (h, l) of
        Build_returned v er g \<Rightarrow>
          (v = 0 \<and> er = MUSTACHE_OK \<and> (\<forall>x\<in>set new. quiet x))
          \<or> (v = - 1 \<and> (\<exists>q. new = q @ [formatting_error_call (arg_udata1 args) (arg_udata2 args)]
                          \<and> (\<forall>x\<in>set q. quiet x)))
          \<or> (v = - 1 \<and> er = MUSTACHE_ERR_USER_ERROR
              \<and> (\<exists>q e. new = q @ [e, formatting_error_call (arg_udata1 args) (arg_udata2 args)]
                    \<and> (\<forall>x\<in>set q. quiet x) \<and> \<not> is_formatting_error e))
      | _ \<Rightarrow> (\<forall>x\<in>set new. quiet x))"
proof (cases "mustache args")
  case None
  then show ?thesis
    by (simp add: mustache_build_def build_error_logged grows_def call_log_def)
next
  case (Some m)
  show ?thesis
  proof (cases "inst_at m 0")
    case None
    with Some show ?thesis by (simp add: mustache_build_def grows_def call_log_def)
  next
    case i0: (Some i0)
    with Some build_loop_log [of l n cb "arg_udata1 args" "arg_udata2 args" _ h]
    show ?thesis by (simp add: mustache_build_def)
  qed
qed

lemma formatting_error_call_is [simp]: "is_formatting_error (formatting_error_call u1 u2)"
  by (simp add: is_formatting_error_def formatting_error_call_def)

subsection \<open>A render keeps its template and the size of its stack\<close>

lemma section_loop_next:
  "section_loop cb s h = Step_next s' h' \<Longrightarrow>
     b_data s' = b_data s \<and> length (b_stack s') = length (b_stack s)"
  by (auto simp: section_loop_def section_repeat_def Let_def set_sec_def next_index_def
      split: option.splits if_splits prod.splits)

lemma section_open_next:
  "section_open cb s h inst = Step_next s' h' \<Longrightarrow>
     b_data s' = b_data s \<and> length (b_stack s') = length (b_stack s)"
  by (auto simp: section_open_def section_test_def Let_def set_sec_def push_frame_def set_count_def
      split: option.splits if_splits prod.splits dest!: section_loop_next)

lemma build_step_next:
  "build_step cb s h inst = Step_next s' h' \<Longrightarrow>
     b_data s' = b_data s \<and> length (b_stack s') = length (b_stack s)"
  by (cases "instruction inst")
    (auto simp: build_step_def set_sec_def
      split: option.splits if_splits prod.splits
      dest!: section_loop_next section_open_next)

lemma build_loop_running:
  "build_loop n cb u1 u2 s h = Build_running s' h' \<Longrightarrow>
     b_data s' = b_data s \<and> length (b_stack s') = length (b_stack s)"
proof (induction n arbitrary: s h)
  case 0
  then show ?case by simp
next
  case (Suc n)
  then show ?case
    by (auto simp: build_error_def split: option.splits build_step_result.splits
        dest!: build_step_next)
qed

lemma length_builder_stack [simp]:
  "length (b_stack (builder_stack m u1 u2 i0 mem)) = MUSTACHE_NESTING_LIMIT"
  by (simp add: builder_stack_def MUSTACHE_NESTING_LIMIT_def)

lemma b_data_builder_stack [simp]: "b_data (builder_stack m u1 u2 i0 mem) = m"
  by (simp add: builder_stack_def)

lemma mustache_build_running:
  assumes "mustache_build n cb args mem h = Build_running s h'"
  obtains m i0 where "mustache args = Some m" "inst_at m 0 = Some i0"
    "build_loop n cb (arg_udata1 args) (arg_udata2 args)
       (builder_stack m (arg_udata1 args) (arg_udata2 args) i0 mem) h = Build_running s h'"
    "b_data s = m" "length (b_stack s) = MUSTACHE_NESTING_LIMIT"
proof (cases "mustache args")
  case None
  with assms show ?thesis by (simp add: mustache_build_def build_error_def)
next
  case (Some m)
  show ?thesis
  proof (cases "inst_at m 0")
    case None
    with Some assms show ?thesis by (simp add: mustache_build_def)
  next
    case i0: (Some i0)
    with Some assms have r: "build_loop n cb (arg_udata1 args) (arg_udata2 args)
       (builder_stack m (arg_udata1 args) (arg_udata2 args) i0 mem) h = Build_running s h'"
      by (simp add: mustache_build_def)
    from build_loop_running [OF r] Some i0 r that show ?thesis by simp
  qed
qed

lemma mustache_build_add:
  "mustache_build (n + k) cb args mem h =
     (case mustache_build n cb args mem h of
        Build_running s h' \<Rightarrow> build_loop k cb (arg_udata1 args) (arg_udata2 args) s h'
      | Build_returned v e h' \<Rightarrow> Build_returned v e h'
      | Build_undefined h' \<Rightarrow> Build_undefined h')"
  by (simp add: mustache_build_def build_loop_add build_error_def split: option.splits)

subsection \<open>The section tests of a turn\<close>

lemma is_section_test_simps [simp]:
  "is_section_test \<lparr>call = On_section_test v n l c, returned = r\<rparr>"
  "\<not> is_section_test \<lparr>call = On_section_start v n l i, returned = r\<rparr>"
  "\<not> is_section_test \<lparr>call = On_text v n l, returned = r\<rparr>"
  "\<not> is_section_test \<lparr>call = On_arg v n l c, returned = r\<rparr>"
  "\<not> is_section_test (formatting_error_call u1 u2)"
  by (simp_all add: is_section_test_def formatting_error_call_def)

lemma section_start_not_test: "is_section_start e \<Longrightarrow> \<not> is_section_test e"
  by (cases "call e") (simp_all add: is_section_start_def is_section_test_def)

lemma filter_section_start_tests:
  "\<forall>x\<in>set new. is_section_start x \<and> P x \<Longrightarrow> filter is_section_test new = []"
  by (auto simp: filter_empty_conv dest: section_start_not_test)

lemma section_loop_tests:
  "grows l (snd (step_client (section_loop (logged cb) s (h, l))))
     (\<lambda>new. filter is_section_test new = [])"
  using section_loop_log [of l cb s h]
  by (cases "section_loop (logged cb) s (h, l)")
    (auto simp: grows_def dest: section_start_not_test filter_section_start_tests)

lemma section_open_tests:
  "grows l (snd (step_client (section_open (logged cb) s (h, l) inst)))
     (\<lambda>new. if d_name_pos inst \<noteq> 0 \<and> unat (b_index s) + 1 < MUSTACHE_NESTING_LIMIT
                 \<and> frame_at s (uint (b_index s)) \<noteq> None
             then \<exists>v. map call (filter is_section_test new) =
                    [On_section_test v (name_bytes (b_data s) inst) (ucast (d_name_len inst))
                       (if instruction inst = MUSTACHE_SECTION_START then 1 else 0)]
             else filter is_section_test new = [])"
proof (cases "unat (b_index s) + 1 \<ge> MUSTACHE_NESTING_LIMIT")
  case True
  then show ?thesis by (simp add: section_open_def grows_def)
next
  case False
  show ?thesis
  proof (cases "frame_at s (uint (b_index s))")
    case None
    with False show ?thesis by (simp add: section_open_def grows_def)
  next
    case (Some cur)
    define s1 where "s1 = push_frame s cur inst"
    have d: "b_data s1 = b_data s" by (simp add: s1_def push_frame_def)
    show ?thesis
    proof (cases "d_name_pos inst = 0")
      case True
      with False Some have "section_open (logged cb) s (h, l) inst = section_loop (logged cb) s1 (h, l)"
        by (simp add: section_open_def section_test_def s1_def)
      with section_loop_tests [of l cb s1 h] True show ?thesis by simp
    next
      case named: False
      obtain val x h' where t: "mustache_on_section_test cb (callback_view s1)
          (name_bytes (b_data s1) inst) (ucast (d_name_len inst))
          (if instruction inst = MUSTACHE_SECTION_START then 1 else 0) h = (val, x, h')"
        by (rule prod_cases3)
      define e where "e = \<lparr>call = On_section_test (callback_view s1)
          (name_bytes (b_data s1) inst) (ucast (d_name_len inst))
          (if instruction inst = MUSTACHE_SECTION_START then 1 else 0), returned = val\<rparr>"
      have te: "is_section_test e" by (simp add: e_def)
      show ?thesis
      proof (cases "val = - 1")
        case True
        with False Some named t
        have "section_open (logged cb) s (h, l) inst = Step_user_error (h', l @ [e])"
          by (simp add: section_open_def section_test_def s1_def [symmetric] logged_section_test e_def)
        with False Some named te show ?thesis by (auto simp: grows_def e_def d)
      next
        case nv: False
        define s2 where "s2 = set_count (set_sec s1 x) (section_count inst val)"
        from False Some named t nv
        have o: "section_open (logged cb) s (h, l) inst = section_loop (logged cb) s2 (h', l @ [e])"
          by (simp add: section_open_def section_test_def s1_def [symmetric] logged_section_test e_def s2_def)
        from section_loop_tests [of "l @ [e]" cb s2 h'] show ?thesis
          unfolding o
          by (rule grows_after) (use False Some named te in \<open>auto simp: e_def d\<close>)
      qed
    qed
  qed
qed

lemma build_step_tests:
  "grows l (snd (step_client (build_step (logged cb) s (h, l) inst)))
     (\<lambda>new. if tests_section s inst
             then \<exists>v. map call (filter is_section_test new) =
                    [On_section_test v (name_bytes (b_data s) inst) (ucast (d_name_len inst))
                       (if instruction inst = MUSTACHE_SECTION_START then 1 else 0)]
             else filter is_section_test new = [])"
proof (cases "instruction inst")
  case MUSTACHE_WRITE_TEXT
  then show ?thesis
    by (auto simp: grows_def build_step_def logged_def tests_section_def section_opener_def
        split: option.splits prod.splits)
next
  case MUSTACHE_WRITE_ARG
  then show ?thesis
    by (auto simp: grows_def build_step_def logged_def tests_section_def section_opener_def
        split: option.splits prod.splits)
next
  case MUSTACHE_WRITE_ARG_UNESCAPED
  then show ?thesis
    by (auto simp: grows_def build_step_def logged_def tests_section_def section_opener_def
        split: option.splits prod.splits)
next
  case MUSTACHE_SECTION_GOTO
  with section_open_tests [of l cb s h inst] show ?thesis
    by (simp add: build_step_def tests_section_def section_opener_def)
next
  case MUSTACHE_SECTION_START
  with section_open_tests [of l cb s h inst] show ?thesis
    by (simp add: build_step_def tests_section_def section_opener_def)
next
  case MUSTACHE_SECTION_START_INV
  with section_open_tests [of l cb s h inst] show ?thesis
    by (simp add: build_step_def tests_section_def section_opener_def)
next
  case MUSTACHE_SECTION_END
  with section_loop_tests [of l cb s h] show ?thesis
    by (simp add: build_step_def tests_section_def section_opener_def)
qed

lemma build_turn_tests:
  assumes "inst_at (b_data s) (pos s) = Some inst"
  shows "grows l (call_log (build_loop (Suc 0) (logged cb) u1 u2 s (h, l)))
     (\<lambda>new. if tests_section s inst
             then \<exists>v. map call (filter is_section_test new) =
                    [On_section_test v (name_bytes (b_data s) inst) (ucast (d_name_len inst))
                       (if instruction inst = MUSTACHE_SECTION_START then 1 else 0)]
             else filter is_section_test new = [])"
proof (cases "build_step (logged cb) s (h, l) inst")
  case (Step_next s' g)
  with build_step_tests [of l cb s h inst] assms show ?thesis
    by (simp add: call_log_def)
next
  case (Step_user_error g)
  obtain h' l1 where g: "g = (h', l1)" by (cases g)
  have r: "call_log (build_loop (Suc 0) (logged cb) u1 u2 s (h, l)) = l1 @ [formatting_error_call u1 u2]"
    using assms Step_user_error g by (simp add: build_error_logged call_log_def)
  from build_step_tests [of l cb s h inst] Step_user_error g show ?thesis
    unfolding r by (auto simp: grows_def)
next
  case (Step_error er g)
  obtain h' l1 where g: "g = (h', l1)" by (cases g)
  have r: "call_log (build_loop (Suc 0) (logged cb) u1 u2 s (h, l)) = l1 @ [formatting_error_call u1 u2]"
    using assms Step_error g by (simp add: build_error_logged call_log_def)
  from build_step_tests [of l cb s h inst] Step_error g show ?thesis
    unfolding r by (auto simp: grows_def)
next
  case (Step_undefined g)
  with build_step_tests [of l cb s h inst] assms show ?thesis
    by (simp add: call_log_def)
qed

subsection \<open>The frames not in use are not read\<close>

lemma nth_update_total: "xs[i := x] ! j = (if i = j \<and> i < length xs then x else xs ! j)"
  by (cases "i < length xs") (simp_all add: nth_list_update list_update_beyond)

lemma agree_refl [simp]: "agree s s"
  by (simp add: agree_def)

lemma agree_live: "agree s t \<Longrightarrow> live s = live t"
proof -
  assume a: "agree s t"
  have "take (if unat (b_index s) < MUSTACHE_NESTING_LIMIT then unat (b_index s) + 1 else 0) (b_stack s)
      = take (if unat (b_index s) < MUSTACHE_NESTING_LIMIT then unat (b_index s) + 1 else 0) (b_stack t)"
    using a by (intro nth_equalityI) (auto simp: agree_def split: if_splits)
  with a show ?thesis by (simp add: live_def agree_def)
qed

lemma agree_frame_at:
  "agree s t \<Longrightarrow> frame_at t (uint (b_index t)) = frame_at s (uint (b_index s))"
  by (auto simp: agree_def frame_at_def)

lemma agree_frame_below:
  "agree s t \<Longrightarrow> frame_at s (uint (b_index s)) = Some f \<Longrightarrow>
     frame_at t (uint (b_index t) - 1) = frame_at s (uint (b_index s) - 1)"
  by (auto simp: agree_def frame_at_def nat_le_iff split: if_splits)

lemma agree_view: "agree s t \<Longrightarrow> unat (b_index s) < MUSTACHE_NESTING_LIMIT \<Longrightarrow>
   callback_view t = callback_view s"
proof -
  assume a: "agree s t" and l: "unat (b_index s) < MUSTACHE_NESTING_LIMIT"
  have "take (unat (b_index s) + 1) (b_stack s) = take (unat (b_index s) + 1) (b_stack t)"
    using a l by (intro nth_equalityI) (auto simp: agree_def)
  moreover from a have "b_data s = b_data t" "pos s = pos t" "b_index s = b_index t"
    by (simp_all add: agree_def)
  ultimately show ?thesis
    by (simp add: callback_view_def mustache_section_text_def
        split: option.splits section_text_result.splits)
qed

lemma agree_set_sec: "agree s t \<Longrightarrow> agree (set_sec s x) (set_sec t x)"
  by (auto simp: agree_def set_sec_def nth_update_total)

lemma agree_next_index: "agree s t \<Longrightarrow> agree (next_index s) (next_index t)"
  by (auto simp: agree_def next_index_def nth_update_total)

lemma agree_set_count: "agree s t \<Longrightarrow> agree (set_count s c) (set_count t c)"
  by (auto simp: agree_def set_count_def nth_update_total)

lemma agree_pos: "agree s t \<Longrightarrow> agree (s\<lparr>pos := p\<rparr>) (t\<lparr>pos := p\<rparr>)"
  by (simp add: agree_def)

lemma agree_fields:
  "agree s t \<Longrightarrow> b_data t = b_data s"
  "agree s t \<Longrightarrow> pos t = pos s"
  "agree s t \<Longrightarrow> b_index t = b_index s"
  by (simp_all add: agree_def)

lemma agree_pop:
  assumes "agree s t" "frame_at s (uint (b_index s)) = Some f"
  shows "agree (s\<lparr>pos := p, b_index := b_index s - 1\<rparr>) (t\<lparr>pos := p, b_index := b_index t - 1\<rparr>)"
proof -
  from assms(2) have l: "unat (b_index s) < MUSTACHE_NESTING_LIMIT"
    by (simp add: frame_at_def split: if_splits)
  have "unat (b_index s - 1) \<le> unat (b_index s)" if "unat (b_index s - 1) < MUSTACHE_NESTING_LIMIT"
  proof (cases "b_index s = 0")
    case True
    with that show ?thesis
      by (simp add: MUSTACHE_NESTING_LIMIT_def unsigned_minus_1_eq_mask mask_eq_exp_minus_1)
  next
    case False
    then have "unat (b_index s - 1) = unat (b_index s) - 1"
      by (simp add: unat_minus_one)
    then show ?thesis by simp
  qed
  with assms(1) l show ?thesis by (auto simp: agree_def)
qed

lemma agree_push:
  assumes "agree s t" "frame_at s (uint (b_index s)) = Some cur"
    "unat (b_index s) + 1 < MUSTACHE_NESTING_LIMIT"
  shows "agree (push_frame s cur inst) (push_frame t cur inst)"
proof -
  from assms(3) have u: "unat (b_index s + 1) = unat (b_index s) + 1"
    by (simp add: MUSTACHE_NESTING_LIMIT_def unat_word_ariths)
  from assms(1,3) u show ?thesis
    by (auto simp: agree_def push_frame_def nth_update_total)
qed

lemma frame_at_index: "frame_at s (uint (b_index s)) = Some f \<Longrightarrow>
    unat (b_index s) < MUSTACHE_NESTING_LIMIT"
  by (simp add: frame_at_def split: if_splits)

lemma set_sec_fields [simp]:
  "pos (set_sec s x) = pos s" "b_index (set_sec s x) = b_index s" "b_data (set_sec s x) = b_data s"
  by (simp_all add: set_sec_def)

lemma next_index_fields [simp]:
  "pos (next_index s) = pos s" "b_index (next_index s) = b_index s"
  "b_data (next_index s) = b_data s"
  by (simp_all add: next_index_def)

lemma set_count_fields [simp]:
  "pos (set_count s c) = pos s" "b_index (set_count s c) = b_index s"
  "b_data (set_count s c) = b_data s"
  by (simp_all add: set_count_def)

lemma push_frame_fields [simp]:
  "pos (push_frame s cur inst) = pos s" "b_index (push_frame s cur inst) = b_index s + 1"
  "b_data (push_frame s cur inst) = b_data s"
  by (simp_all add: push_frame_def)

lemma section_repeat_agree:
  assumes a: "agree s t" and l: "unat (b_index s) < MUSTACHE_NESTING_LIMIT"
  shows "agree_step (section_repeat cb s i h) (section_repeat cb t i h)"
proof -
  note f = agree_fields [OF a]
  note v = agree_view [OF a l]
  have n1: "agree ((next_index (set_sec s x))\<lparr>pos := p\<rparr>) ((next_index (set_sec t x))\<lparr>pos := p\<rparr>)"
    for x p
    by (intro agree_pos agree_next_index agree_set_sec a)
  have n2: "agree ((next_index s)\<lparr>pos := p\<rparr>) ((next_index t)\<lparr>pos := p\<rparr>)" for p
    by (intro agree_pos agree_next_index a)
  show ?thesis
    using n1 n2 by (auto simp: section_repeat_def f v split: option.splits prod.splits)
qed

lemma section_loop_agree:
  assumes a: "agree s t"
  shows "agree_step (section_loop cb s h) (section_loop cb t h)"
proof (cases "frame_at s (uint (b_index s))")
  case None
  with agree_frame_at [OF a] show ?thesis by (simp add: section_loop_def)
next
  case (Some f)
  note ft = agree_frame_at [OF a, unfolded Some]
  note lim = frame_at_index [OF Some]
  show ?thesis
  proof (cases "f_index f < count f")
    case False
    with Some ft agree_pop [OF a Some, of "f_end f + 1"] show ?thesis
      by (simp add: section_loop_def)
  next
    case True
    show ?thesis
    proof (cases "frame_at s (uint (b_index s) - 1)")
      case None
      with Some ft True agree_frame_below [OF a Some] show ?thesis
        by (simp add: section_loop_def)
    next
      case parent: (Some parent)
      note pt = agree_frame_below [OF a Some, unfolded parent]
      have a1: "agree (set_sec (s\<lparr>pos := start f\<rparr>) (sec parent))
                      (set_sec (t\<lparr>pos := start f\<rparr>) (sec parent))"
        by (intro agree_set_sec agree_pos a)
      from section_repeat_agree [OF a1, of cb "f_index f" h] lim
      show ?thesis
        using Some ft True parent pt by (simp add: section_loop_def)
    qed
  qed
qed

lemma section_test_agree:
  assumes a: "agree s t" and l: "unat (b_index s) < MUSTACHE_NESTING_LIMIT"
  shows "agree_step (section_test cb s h inst) (section_test cb t h inst)"
proof -
  note f = agree_fields [OF a]
  note v = agree_view [OF a l]
  have n1: "agree (set_count (set_sec s x) c) (set_count (set_sec t x) c)" for x c
    by (intro agree_set_count agree_set_sec a)
  show ?thesis
    using section_loop_agree [OF a, of cb h] section_loop_agree [OF n1, of cb]
    by (auto simp: section_test_def f v split: prod.splits)
qed

lemma section_open_agree:
  assumes a: "agree s t"
  shows "agree_step (section_open cb s h inst) (section_open cb t h inst)"
proof (cases "unat (b_index s) + 1 \<ge> MUSTACHE_NESTING_LIMIT")
  case True
  with agree_fields [OF a] show ?thesis by (simp add: section_open_def)
next
  case False
  note f0 = agree_fields [OF a]
  show ?thesis
  proof (cases "frame_at s (uint (b_index s))")
    case None
    with False agree_frame_at [OF a] f0 show ?thesis by (simp add: section_open_def)
  next
    case (Some cur)
    note ft = agree_frame_at [OF a, unfolded Some]
    from False have lt: "unat (b_index s) + 1 < MUSTACHE_NESTING_LIMIT" by simp
    have a1: "agree (push_frame s cur inst) (push_frame t cur inst)"
      by (rule agree_push [OF a Some lt])
    from lt have "unat (b_index s + 1) = unat (b_index s) + 1"
      by (simp add: MUSTACHE_NESTING_LIMIT_def unat_word_ariths)
    with lt have l1: "unat (b_index (push_frame s cur inst)) < MUSTACHE_NESTING_LIMIT" by simp
    from section_test_agree [OF a1 l1, of cb h inst] show ?thesis
      using False Some ft f0 by (simp add: section_open_def)
  qed
qed

lemma build_step_agree:
  assumes a: "agree s t"
  shows "agree_step (build_step cb s h inst) (build_step cb t h inst)"
proof -
  note f0 = agree_fields [OF a]
  note ft = agree_frame_at [OF a]
  have w: "agree ((set_sec s x)\<lparr>pos := p\<rparr>) ((set_sec t x)\<lparr>pos := p\<rparr>)" for x p
    by (intro agree_pos agree_set_sec a)
  have v: "frame_at s (uint (b_index s)) = Some f \<Longrightarrow> callback_view t = callback_view s" for f
    by (rule agree_view [OF a frame_at_index])
  show ?thesis
  proof (cases "instruction inst")
    case MUSTACHE_WRITE_TEXT
    then show ?thesis
      using ft f0 w v by (cases "frame_at s (uint (b_index s))")
        (auto simp: build_step_def split: prod.splits)
  next
    case MUSTACHE_WRITE_ARG
    then show ?thesis
      using ft f0 w v by (cases "frame_at s (uint (b_index s))")
        (auto simp: build_step_def split: prod.splits)
  next
    case MUSTACHE_WRITE_ARG_UNESCAPED
    then show ?thesis
      using ft f0 w v by (cases "frame_at s (uint (b_index s))")
        (auto simp: build_step_def split: prod.splits)
  next
    case MUSTACHE_SECTION_GOTO
    with section_open_agree [OF a] show ?thesis by (simp add: build_step_def)
  next
    case MUSTACHE_SECTION_START
    with section_open_agree [OF a] show ?thesis by (simp add: build_step_def)
  next
    case MUSTACHE_SECTION_START_INV
    with section_open_agree [OF a] show ?thesis by (simp add: build_step_def)
  next
    case MUSTACHE_SECTION_END
    with section_loop_agree [OF a] show ?thesis by (simp add: build_step_def)
  qed
qed

lemma build_loop_agree:
  "agree s t \<Longrightarrow> live_run (build_loop n cb u1 u2 s h) = live_run (build_loop n cb u1 u2 t h)"
proof (induction n arbitrary: s t h)
  case 0
  then show ?case by (simp add: agree_live)
next
  case (Suc n)
  note f0 = agree_fields [OF Suc.prems]
  show ?case
  proof (cases "inst_at (b_data s) (pos s)")
    case None
    with f0 show ?thesis by simp
  next
    case (Some inst)
    from build_step_agree [OF Suc.prems, of cb h inst] show ?thesis
      using Some f0 Suc.IH
      by (cases "build_step cb s h inst") auto
  qed
qed

lemma builder_stack_agree:
  "agree (builder_stack m u1 u2 i0 mem1) (builder_stack m u1 u2 i0 mem2)"
  by (simp add: agree_def builder_stack_def)

subsection \<open>Renders of \<open>{{^x}}none{{/x}}\<close> and of \<open>{{#x}}a{{/x}}\<close>\<close>

lemma inv_template_loaded:
  "mustache_load 10 (\<lambda>p. None) inv_template_load_args = Some (Some inv_template_image, MUSTACHE_OK)"
  by code_simp

lemma sec_template_loaded:
  "mustache_load 10 (\<lambda>p. None) sec_template_load_args = Some (Some sec_template_image, MUSTACHE_OK)"
  by code_simp

lemma inv_render_once:
  "mustache_build 10 (logged (printing_callbacks 0 0)) inv_template_args zero_frames ([], []) =
     Build_returned 0 MUSTACHE_OK
       (''none'',
        [\<lparr>call = On_section_test (x_section_view None) ''x'' 1 0, returned = 0\<rparr>,
         \<lparr>call = On_section_start (x_section_view None) ''x'' 1 0, returned = 0\<rparr>,
         \<lparr>call = On_text (x_section_view None) ''none'' 4, returned = 0\<rparr>])"
  by code_simp

lemma inv_render_skipped:
  "mustache_build 10 (logged (printing_callbacks 3 0)) inv_template_args zero_frames ([], []) =
     Build_returned 0 MUSTACHE_OK
       ([], [\<lparr>call = On_section_test (x_section_view None) ''x'' 1 0, returned = 3\<rparr>])"
  by code_simp

lemma inv_render_start_aborts:
  "mustache_build 10 (logged (printing_callbacks 0 (- 1))) inv_template_args zero_frames ([], []) =
     Build_returned (- 1) MUSTACHE_ERR_USER_ERROR
       (''!'',
        [\<lparr>call = On_section_test (x_section_view None) ''x'' 1 0, returned = 0\<rparr>,
         \<lparr>call = On_section_start (x_section_view None) ''x'' 1 0, returned = - 1\<rparr>,
         formatting_error_call 7 8])"
  by code_simp

lemma inv_render_reaches_section:
  "mustache_build 1 (logged (printing_callbacks 3 0)) inv_template_args zero_frames ([], []) =
     Build_running inv_template_state ([], [])"
  by code_simp

lemma sec_render_reaches_section:
  "mustache_build 1 (logged (printing_callbacks 1 0)) sec_template_args zero_frames ([], []) =
     Build_running sec_template_state ([], [])"
  by code_simp

lemma sec_render_once:
  "mustache_build 10 (logged (printing_callbacks 1 0)) sec_template_args stale_frames ([], []) =
     Build_returned 0 MUSTACHE_OK
       (''a'',
        [\<lparr>call = On_section_test (x_section_view (Some ''a'')) ''x'' 1 1, returned = 1\<rparr>,
         \<lparr>call = On_section_start (x_section_view (Some ''a'')) ''x'' 1 0, returned = 0\<rparr>,
         \<lparr>call = On_text (x_section_view None) ''a'' 1, returned = 0\<rparr>])"
  by code_simp

subsection \<open>The turn at an inverted section\<close>




subsection \<open>A frame in its only iteration\<close>

lemma iteration_of_set_sec [simp]:
  "iteration_of (b_stack (set_sec t x) ! j) = iteration_of (b_stack t ! j)"
  by (simp add: set_sec_def nth_update_total iteration_of_def)

lemma length_set_sec [simp]: "length (b_stack (set_sec t x)) = length (b_stack t)"
  by (simp add: set_sec_def)


lemma length_next_index [simp]: "length (b_stack (next_index t)) = length (b_stack t)"
  by (simp add: next_index_def)


lemma length_set_count [simp]: "length (b_stack (set_count t c)) = length (b_stack t)"
  by (simp add: set_count_def)


lemma length_push_frame [simp]: "length (b_stack (push_frame t cur e)) = length (b_stack t)"
  by (simp add: push_frame_def)








subsection \<open>Two renders of one template\<close>

text \<open>
  C4. Two renders of the same template with the same callbacks, the same \<open>udata1\<close>
  and \<open>udata2\<close> and the same client state, whatever the memory of the frames
  \<open>s.stack[1]\<close>, ... holds when each is entered (\<open>mem1\<close>, \<open>mem2\<close>): after any
  number of turns of the loop the two have made the same callback invocations, in the
  same order, with the same arguments and the same results (the logs are equal); they
  are at the same instruction with the same frames in use, or have both returned the
  same, or are both undefined; a render that has returned returns the same when the
  other is given more turns; and a render leaves the template as it is.
\<close>

theorem render_deterministic:
  "call_log (mustache_build n (logged cb) args mem1 (h, []))
     = call_log (mustache_build n (logged cb) args mem2 (h, []))
   \<and> live_run (mustache_build n (logged cb) args mem1 (h, []))
     = live_run (mustache_build n (logged cb) args mem2 (h, []))
   \<and> (\<forall>v e g. mustache_build n (logged cb) args mem1 (h, []) = Build_returned v e g \<longrightarrow>
         mustache_build (n + k) (logged cb) args mem2 (h, []) = Build_returned v e g)
   \<and> (\<forall>s g. mustache_build n (logged cb) args mem1 (h, []) = Build_running s g \<longrightarrow>
         mustache args = Some (b_data s))"
proof -
  let ?R1 = "mustache_build n (logged cb) args mem1 (h, [])"
  let ?R2 = "mustache_build n (logged cb) args mem2 (h, [])"
  have l: "live_run ?R1 = live_run ?R2"
    by (auto simp: mustache_build_def split: option.splits
        intro!: build_loop_agree builder_stack_agree)
  have c: "client_state (live_run r) = client_state r" for r :: "('a, 'b \<times> 'a call_record list) build_run"
    by (cases r) simp_all
  from l have "client_state (live_run ?R1) = client_state (live_run ?R2)" by simp
  then have cl: "call_log ?R1 = call_log ?R2" by (simp add: c call_log_def)
  have ret: "mustache_build (n + k) (logged cb) args mem2 (h, []) = Build_returned v e g"
    if "?R1 = Build_returned v e g" for v e g
  proof -
    from l that have "?R2 = Build_returned v e g" by (cases ?R2) simp_all
    then show ?thesis by (simp add: mustache_build_add)
  qed
  have img: "mustache args = Some (b_data s)" if "?R1 = Build_running s g" for s g
    using that by (rule mustache_build_running) simp
  from cl l ret img show ?thesis by blast
qed

text \<open>
  The render of \<open>{{#x}}a{{/x}}\<close> on a stack of stale frames and on one of zeros.
\<close>

theorem render_deterministic_witness:
  "call_log (mustache_build 10 (logged (printing_callbacks 1 0)) sec_template_args stale_frames ([], []))
     = call_log (mustache_build 10 (logged (printing_callbacks 1 0)) sec_template_args zero_frames ([], []))
   \<and> live_run (mustache_build 10 (logged (printing_callbacks 1 0)) sec_template_args stale_frames ([], []))
     = live_run (mustache_build 10 (logged (printing_callbacks 1 0)) sec_template_args zero_frames ([], []))
   \<and> mustache_build (10 + 5) (logged (printing_callbacks 1 0)) sec_template_args zero_frames ([], [])
     = Build_returned 0 MUSTACHE_OK
       (''a'',
        [\<lparr>call = On_section_test (x_section_view (Some ''a'')) ''x'' 1 1, returned = 1\<rparr>,
         \<lparr>call = On_section_start (x_section_view (Some ''a'')) ''x'' 1 0, returned = 0\<rparr>,
         \<lparr>call = On_text (x_section_view None) ''a'' 1, returned = 0\<rparr>])"
proof -
  note t = render_deterministic [where n = 10 and cb = "printing_callbacks 1 0"
      and args = sec_template_args and ?mem1.0 = stale_frames and ?mem2.0 = zero_frames
      and h = "[]" and k = 5]
  from t sec_render_once
  have "mustache_build (10 + 5) (logged (printing_callbacks 1 0)) sec_template_args zero_frames ([], [])
     = Build_returned 0 MUSTACHE_OK
       (''a'',
        [\<lparr>call = On_section_test (x_section_view (Some ''a'')) ''x'' 1 1, returned = 1\<rparr>,
         \<lparr>call = On_section_start (x_section_view (Some ''a'')) ''x'' 1 0, returned = 0\<rparr>,
         \<lparr>call = On_text (x_section_view None) ''a'' 1, returned = 0\<rparr>])"
    by blast
  with t show ?thesis by blast
qed

subsection \<open>A callback that returns \<open>-1\<close>\<close>

text \<open>
  C7. If among the callbacks a render has made within any number of turns one host
  callback (\<open>mustache_on_text\<close>, \<open>mustache_on_arg\<close>, \<open>mustache_on_section_test\<close> or
  \<open>mustache_on_section_start\<close>) has returned \<open>-1\<close>, then the render has returned within
  these turns: \<open>mustache_build\<close> has returned \<open>-1\<close> with \<open>MUSTACHE_ERR_USER_ERROR\<close> in
  \<open>*args.err\<close>; that call was the last call of a host callback; it was followed by one
  call of \<open>mustache_on_formatting_error\<close> with the \<open>udata1\<close> and \<open>udata2\<close> of the
  arguments, the last call of all; and the error callback was not called before.
\<close>

theorem render_aborts_on_callback_error:
  assumes "e \<in> set (call_log (mustache_build fuel (logged cb) args mem (h, [])))"
    and "\<not> is_formatting_error e"
    and "returned e = - 1"
  shows "\<exists>tr0 h'. mustache_build fuel (logged cb) args mem (h, []) =
            Build_returned (- 1) MUSTACHE_ERR_USER_ERROR
              (h', tr0 @ [e, formatting_error_call (arg_udata1 args) (arg_udata2 args)])
          \<and> (\<forall>x\<in>set tr0. \<not> is_formatting_error x \<and> returned x \<noteq> - 1)"
proof -
  let ?R = "mustache_build fuel (logged cb) args mem (h, [])"
  let ?fe = "formatting_error_call (arg_udata1 args) (arg_udata2 args)"
  from assms have nq: "\<not> quiet e" by (simp add: quiet_def)
  from mustache_build_log [of "[]" fuel cb args mem h]
  obtain new where new: "call_log ?R = new"
    and P: "case ?R of
        Build_returned v er g \<Rightarrow>
          (v = 0 \<and> er = MUSTACHE_OK \<and> (\<forall>x\<in>set new. quiet x))
          \<or> (v = - 1 \<and> (\<exists>q. new = q @ [?fe] \<and> (\<forall>x\<in>set q. quiet x)))
          \<or> (v = - 1 \<and> er = MUSTACHE_ERR_USER_ERROR
              \<and> (\<exists>q e. new = q @ [e, ?fe] \<and> (\<forall>x\<in>set q. quiet x) \<and> \<not> is_formatting_error e))
      | _ \<Rightarrow> (\<forall>x\<in>set new. quiet x)"
    by (auto simp: grows_def)
  from assms(1) new have e: "e \<in> set new" by simp
  show ?thesis
  proof (cases ?R)
    case (Build_running s g)
    with P e nq show ?thesis by auto
  next
    case (Build_undefined g)
    with P e nq show ?thesis by auto
  next
    case (Build_returned v er g)
    with P e nq assms(2) obtain q e' where
      q: "v = - 1" "er = MUSTACHE_ERR_USER_ERROR" "new = q @ [e', ?fe]" "\<forall>x\<in>set q. quiet x"
      by auto
    with e nq assms(2) have "e = e'" by auto
    moreover from new Build_returned have "snd g = new" by (simp add: call_log_def)
    ultimately show ?thesis
      using Build_returned q by (cases g) (auto simp: quiet_def)
  qed
qed

text \<open>
  The render of \<open>{{^x}}none{{/x}}\<close> in which \<open>mustache_on_section_start\<close> returns \<open>-1\<close>.
\<close>

theorem render_aborts_on_callback_error_witness:
  "\<exists>tr0 h'. mustache_build 10 (logged (printing_callbacks 0 (- 1))) inv_template_args zero_frames
        ([], []) =
      Build_returned (- 1) MUSTACHE_ERR_USER_ERROR
        (h', tr0 @ [\<lparr>call = On_section_start (x_section_view None) ''x'' 1 0, returned = - 1\<rparr>,
                    formatting_error_call 7 8])
    \<and> (\<forall>x\<in>set tr0. \<not> is_formatting_error x \<and> returned x \<noteq> - 1)"
proof -
  let ?e = "\<lparr>call = On_section_start (x_section_view None) ''x'' 1 0, returned = - 1\<rparr>"
  have m: "?e \<in> set (call_log (mustache_build 10 (logged (printing_callbacks 0 (- 1)))
                 inv_template_args zero_frames ([], [])))"
    by (simp add: inv_render_start_aborts call_log_def)
  have u: "arg_udata1 inv_template_args = 7" "arg_udata2 inv_template_args = 8"
    by (simp_all add: inv_template_args_def)
  from render_aborts_on_callback_error [OF m] show ?thesis
    by (simp add: is_formatting_error_def u)
qed

subsection \<open>The \<open>callable\<close> flag of a section test\<close>

text \<open>
  C9. A render that is at the instruction \<open>inst\<close> after \<open>n\<close> turns calls
  \<open>mustache_on_section_test\<close> in its next turn exactly once if \<open>inst\<close> opens a named
  section and the stack has room for its frame, and not at all otherwise; the call is
  given the section's name, and its \<open>callable\<close> argument is \<open>1\<close> when \<open>inst\<close> is
  \<open>MUSTACHE_SECTION_START\<close> and \<open>0\<close> otherwise: \<open>0\<close> for every
  \<open>MUSTACHE_SECTION_START_INV\<close>.
\<close>

theorem section_test_callable_flag:
  assumes "mustache_build n (logged cb) args mem (h, []) = Build_running s (h1, log)"
    and "mustache args = Some m"
    and "inst_at m (pos s) = Some inst"
  shows "\<exists>new. call_log (mustache_build (Suc n) (logged cb) args mem (h, [])) = log @ new
     \<and> (if section_opener (instruction inst) \<and> d_name_pos inst \<noteq> 0
            \<and> unat (b_index s) + 1 < MUSTACHE_NESTING_LIMIT
         then \<exists>v. map call (filter is_section_test new) =
                [On_section_test v (name_bytes m inst) (ucast (d_name_len inst))
                   (if instruction inst = MUSTACHE_SECTION_START then 1 else 0)]
         else filter is_section_test new = [])"
proof -
  from assms(1) obtain m' i0 where m': "mustache args = Some m'" "b_data s = m'"
    "length (b_stack s) = MUSTACHE_NESTING_LIMIT"
    by (rule mustache_build_running)
  with assms(2) have d: "b_data s = m" by simp
  have "unat (b_index s) + 1 < MUSTACHE_NESTING_LIMIT \<Longrightarrow> frame_at s (uint (b_index s)) \<noteq> None"
    using m'(3) by (simp add: frame_at_def)
  then have ts: "tests_section s inst \<longleftrightarrow> section_opener (instruction inst) \<and> d_name_pos inst \<noteq> 0
            \<and> unat (b_index s) + 1 < MUSTACHE_NESTING_LIMIT"
    by (auto simp: tests_section_def)
  have r: "mustache_build (Suc n) (logged cb) args mem (h, [])
      = build_loop (Suc 0) (logged cb) (arg_udata1 args) (arg_udata2 args) s (h1, log)"
    using mustache_build_add [of n "Suc 0" "logged cb" args mem "(h, [])"] assms(1) by simp
  from assms(3) d have i: "inst_at (b_data s) (pos s) = Some inst" by simp
  from build_turn_tests [OF i, of log cb "arg_udata1 args" "arg_udata2 args" h1]
  show ?thesis
    unfolding r ts grows_def d .
qed

text \<open>
  The tests of \<open>{{#x}}a{{/x}}\<close>, with \<open>callable = 1\<close>, and of \<open>{{^x}}none{{/x}}\<close>, with
  \<open>callable = 0\<close>.
\<close>

theorem section_test_callable_flag_witness:
  "(\<exists>new v. call_log (mustache_build (Suc 1) (logged (printing_callbacks 1 0)) sec_template_args
                zero_frames ([], [])) = new
      \<and> map call (filter is_section_test new) = [On_section_test v ''x'' 1 1])
   \<and> (\<exists>new v. call_log (mustache_build (Suc 1) (logged (printing_callbacks 3 0)) inv_template_args
                zero_frames ([], [])) = new
      \<and> map call (filter is_section_test new) = [On_section_test v ''x'' 1 0])"
proof
  show "\<exists>new v. call_log (mustache_build (Suc 1) (logged (printing_callbacks 1 0)) sec_template_args
                zero_frames ([], [])) = new
      \<and> map call (filter is_section_test new) = [On_section_test v ''x'' 1 1]"
  proof -
    have a: "mustache sec_template_args = Some sec_template_image"
      by (simp add: sec_template_args_def)
    have i: "inst_at sec_template_image (pos sec_template_state) =
       Some \<lparr>instruction = MUSTACHE_SECTION_START, d_end = 3, d_len = 1,
          d_name_pos = 17, d_name_len = 1, d_offset = 3\<rparr>"
      by (simp add: inst_at_def sec_template_image_def sec_template_state_def)
    have n: "name_bytes sec_template_image \<lparr>instruction = MUSTACHE_SECTION_START, d_end = 3, d_len = 1,
          d_name_pos = 17, d_name_len = 1, d_offset = 3\<rparr> = ''x''"
      by (simp add: name_bytes_def sec_template_image_def)
    have d: "unat (b_index sec_template_state) + 1 < MUSTACHE_NESTING_LIMIT"
      by (simp add: sec_template_state_def MUSTACHE_NESTING_LIMIT_def)
    from section_test_callable_flag [OF sec_render_reaches_section a i] d show ?thesis
      by (simp add: n section_opener_def)
  qed
  show "\<exists>new v. call_log (mustache_build (Suc 1) (logged (printing_callbacks 3 0)) inv_template_args
                zero_frames ([], [])) = new
      \<and> map call (filter is_section_test new) = [On_section_test v ''x'' 1 0]"
  proof -
    have a: "mustache inv_template_args = Some inv_template_image"
      by (simp add: inv_template_args_def)
    have i: "inst_at inv_template_image (pos inv_template_state) =
       Some \<lparr>instruction = MUSTACHE_SECTION_START_INV, d_end = 3, d_len = 4,
          d_name_pos = 17, d_name_len = 1, d_offset = 3\<rparr>"
      by (simp add: inst_at_def inv_template_image_def inv_template_state_def)
    have n: "name_bytes inv_template_image \<lparr>instruction = MUSTACHE_SECTION_START_INV, d_end = 3,
          d_len = 4, d_name_pos = 17, d_name_len = 1, d_offset = 3\<rparr> = ''x''"
      by (simp add: name_bytes_def inv_template_image_def)
    have d: "unat (b_index inv_template_state) + 1 < MUSTACHE_NESTING_LIMIT"
      by (simp add: inv_template_state_def MUSTACHE_NESTING_LIMIT_def)
    from section_test_callable_flag [OF inv_render_reaches_section a i] d show ?thesis
      by (simp add: n section_opener_def)
  qed
qed

subsection \<open>An inverted section is run once or not at all\<close>




subsection \<open>The chain of template headers\<close>

lemma two_templates_loaded:
  "mustache_load 10 partials_fs two_templates_args = Some (Some two_templates_image, MUSTACHE_OK)"
  by code_simp

lemma three_templates_loaded:
  "mustache_load 10 partials_fs three_templates_args
     = Some (Some three_templates_image, MUSTACHE_OK)"
  by code_simp

lemma two_templates_walk:
  "file_is_loaded_loop (data_seg two_templates_image) ''q'' 1 0 [] = Some (- 1, [0, 20], 55)"
  by code_simp

lemma three_templates_walk:
  "file_is_loaded_loop (data_seg three_templates_image) ''q'' 1 0 [] = Some (- 1, [0, 26], 67)"
  by code_simp

lemma three_templates_third_header:
  "mustache__data_segment_read (drop 41 (data_seg three_templates_image)) =
     \<lparr>filename = ''q'' @ [NUL] @ ''y'', inst_start = 4, next_pos = 56, filename_len = 1,
      path_len = 0\<rparr>"
  by code_simp

text \<open>
  C1. The walk of \<open>mustache__file_is_loaded\<close> over the headers of a compiled template
  adds each header's \<open>next\<close>, an absolute position, to the walking pointer.
  \<^item> \<open>{{>p}}\<close> compiles to two templates in 35 bytes of data, with headers at 0 and
    20; the walk (for a name that is not loaded) reads the headers at 0 and 20 and ends
    at 55, not at 35.
  \<^item> \<open>{{>p}}{{>q}}\<close> compiles to three templates in 56 bytes, with headers at 0, 26
    and 41; the walk for \<open>q\<close> reads the headers at 0 and 26 and ends at 67: it never
    reads the header of \<open>q\<close> at 41 and reports \<open>q\<close> as not loaded.
\<close>

theorem header_walk_overshoots:
  "mustache_load 10 partials_fs two_templates_args = Some (Some two_templates_image, MUSTACHE_OK)
   \<and> length (data_seg two_templates_image) = 35
   \<and> file_is_loaded_loop (data_seg two_templates_image) ''q'' 1 0 [] = Some (- 1, [0, 20], 55)
   \<and> mustache_load 10 partials_fs three_templates_args
       = Some (Some three_templates_image, MUSTACHE_OK)
   \<and> length (data_seg three_templates_image) = 56
   \<and> filename_len (mustache__data_segment_read (drop 41 (data_seg three_templates_image))) = 1
   \<and> take 1 (filename (mustache__data_segment_read (drop 41 (data_seg three_templates_image))))
       = ''q''
   \<and> file_is_loaded_loop (data_seg three_templates_image) ''q'' 1 0 [] = Some (- 1, [0, 26], 67)"
proof -
  have "length (data_seg two_templates_image) = 35"
    by (simp add: two_templates_image_def)
  moreover have "length (data_seg three_templates_image) = 56"
    by (simp add: three_templates_image_def)
  moreover have
    "filename_len (mustache__data_segment_read (drop 41 (data_seg three_templates_image))) = 1"
    "take 1 (filename (mustache__data_segment_read (drop 41 (data_seg three_templates_image))))
       = ''q''"
    by (simp_all only: three_templates_third_header) simp_all
  ultimately show ?thesis
    by (intro conjI two_templates_loaded two_templates_walk three_templates_loaded
        three_templates_walk)
qed

subsection \<open>Searching and trimming in the data\<close>

lemma find_sub_found:
  "c \<notin> set xs \<Longrightarrow> find_sub (c # p) (xs @ c # p @ ys) = Some (length xs)"
  by (induction xs) auto

lemma find_sub_none:
  "c \<notin> set xs \<Longrightarrow> find_sub (c # p) xs = None"
  by (induction xs) auto

lemma c_str_append:
  "NUL \<notin> set xs \<Longrightarrow> c_str (xs @ ys) = xs @ c_str ys"
  by (induction xs) (auto simp: c_str_def)

lemma c_str_Cons:
  "c \<noteq> NUL \<Longrightarrow> c_str (c # ys) = c # c_str ys"
  by (simp add: c_str_def)

lemma set_c_str: "set (c_str xs) \<subseteq> set xs"
  by (auto simp: c_str_def dest: set_takeWhileD)

lemma strstr_found:
  assumes "length a = n" "NUL \<notin> set xs" "c \<notin> set xs" "NUL \<notin> set (c # p)"
  shows "strstr (a @ xs @ c # p @ ys) n (c # p) = Some (n + length xs)"
proof -
  from assms have "NUL \<notin> set (xs @ c # p)" by simp
  from c_str_append [OF this, of ys]
  have "c_str (xs @ c # p @ ys) = xs @ c # p @ c_str ys" by simp
  with assms show ?thesis
    by (simp add: strstr_def find_sub_found)
qed

lemma strstr_none:
  assumes "length a = n" "c \<notin> set xs"
  shows "strstr (a @ xs) n (c # p) = None"
proof -
  from assms(2) set_c_str [of xs] have "c \<notin> set (c_str xs)" by blast
  with assms(1) show ?thesis
    by (simp add: strstr_def find_sub_none)
qed

lemma ignore_whitespace_fwd_stop:
  assumes "length a = n" "\<not> isspace c"
  shows "ignore_whitespace_fwd (a @ x @ c # r) n = n + length (takeWhile isspace x)"
proof -
  have "takeWhile isspace (x @ c # r) = takeWhile isspace x"
    using assms(2) by (induction x) auto
  with assms(1) show ?thesis by (simp add: ignore_whitespace_fwd_def)
qed

lemma byte_at_append: "byte_at (a @ c # r) (length a) = c"
  by (simp add: byte_at_def)

lemma ignore_whitespace_bwd_stop:
  assumes "\<not> isspace c"
  shows "ignore_whitespace_bwd (a @ c # x @ r) (length a + length x) = length a + length (rtrim x)"
proof (induction x arbitrary: r rule: rev_induct)
  case Nil
  show ?case
  proof (cases a rule: rev_cases)
    case Nil
    then show ?thesis by (simp add: rtrim_def)
  next
    case (snoc a' y)
    then show ?thesis using assms by (simp add: rtrim_def byte_at_def nth_append)
  qed
next
  case (snoc y x)
  have pos: "length a + length (x @ [y]) = Suc (length a + length x)" by simp
  have b: "byte_at (a @ c # (x @ [y]) @ r) (Suc (length a + length x)) = y"
    by (simp add: byte_at_def nth_append)
  show ?case
  proof (cases "isspace y")
    case True
    have "ignore_whitespace_bwd (a @ c # (x @ [y]) @ r) (length a + length (x @ [y]))
        = ignore_whitespace_bwd (a @ c # x @ (y # r)) (length a + length x)"
      unfolding pos using True b by simp
    also have "\<dots> = length a + length (rtrim x)" by (rule snoc.IH)
    also have "rtrim x = rtrim (x @ [y])" using True by (simp add: rtrim_def)
    finally show ?thesis .
  next
    case False
    then have "rtrim (x @ [y]) = x @ [y]" by (simp add: rtrim_def)
    moreover have "ignore_whitespace_bwd (a @ c # (x @ [y]) @ r) (length a + length (x @ [y]))
        = Suc (length a + length x)"
      unfolding pos using False b by simp
    ultimately show ?thesis by simp
  qed
qed

subsection \<open>Compiling a template with one variable tag\<close>

lemma length_data_segment_write:
  "length (mustache__data_segment_write seg) = 13 + min (unat (filename_len seg)) (length (filename seg))"
  by (simp add: mustache__data_segment_write_def)

lemma length_root_header [simp]: "length (root_header n) = 13"
  by (simp add: root_header_def length_data_segment_write)

lemma root_header_read:
  "mustache__data_segment_read (root_header n @ r) =
     \<lparr>filename = NUL # r, inst_start = 0, next_pos = take_bit 11 (of_nat (n + 13)),
      filename_len = 0, path_len = 0\<rparr>"
  unfolding root_header_def data_segment_read_write by simp

lemma load_data_root:
  assumes "int (length d) \<le> UINT32_MAX"
  shows "mustache__load_data loader_init [] 0 d (length d) =
     Inr (root_state [inst0 MUSTACHE_SECTION_START] MUSTACHE_OK (root_header (length d) @ d)
            13 (13 + length d))"
proof -
  have h: "mustache__data_segment_write
      \<lparr>filename = [], inst_start = of_nat (length (l_i loader_init)),
       next_pos = of_nat (length (l_data loader_init) + length d
                          + mustache__data_segment_length 0),
       filename_len = of_nat 0, path_len = of_nat (name_path_len [] 0)\<rparr>
     = root_header (length d)"
    by (simp add: root_header_def loader_init_def mustache__data_segment_length_def)
  show ?thesis
    apply (simp only: mustache__load_data_def Let_def h)
    using assms
    apply (simp add: loader_init_def root_state_def
      mustache__instruction_push_def INT32_MAX_def MUSTACHE_NESTING_LIMIT_def
      mustache__data_segment_length_def)
    done
qed

lemma top_frame_root_state [simp]:
  "top_frame (root_state is er d p e) = new_frame 0 p e"
  by (simp add: top_frame_def root_state_def MUSTACHE_NESTING_LIMIT_def)

lemma root_state_fields [simp]:
  "l_i (root_state is er d p e) = is" "l_data (root_state is er d p e) = d"
  "l_index (root_state is er d p e) = 1" "err (root_state is er d p e) = er"
  by (simp_all add: root_state_def)

lemma set_top_frame_root_state:
  "set_top_frame (root_state is er d p e) ((new_frame 0 p e)\<lparr>data_pos := p'\<rparr>)
     = root_state is er d p' e"
  by (simp add: set_top_frame_def root_state_def new_frame_def)

lemma push_root_state:
  "int (length is) < INT32_MAX \<Longrightarrow>
   mustache__instruction_push (root_state is er d p e) i = (False, root_state (is @ [i]) er d p e)"
  by (simp add: mustache__instruction_push_def root_state_def)


lemma parse_step_text_only:
  assumes "strstr d p ''{{'' = None" "int (length is) < INT32_MAX"
  shows "parse_step fs (root_state is er d p e)
     = Some (Inr (root_state (is @ [text_inst p (e - p)]) er d e e))"
  using assms
  by (simp add: parse_step_def Let_def text_only_def new_frame_def push_root_state
      set_top_frame_root_state [unfolded new_frame_def, simplified] text_inst_def)

lemma parse_step_tag:
  assumes "strstr d p ''{{'' = Some ob" "ob < e" "strstr d (ob + 2) ''}}'' = Some en" "en < e"
    and "int (length is) + 1 < INT32_MAX"
  shows "parse_step fs (root_state is er d p e)
     = tag_dispatch fs (root_state (is @ pre_text p ob) er d (en + 2) e) ob (ob + 2) en"
  using assms
  by (simp add: parse_step_def Let_def new_frame_def push_root_state pre_text_def
      set_top_frame_root_state [unfolded new_frame_def, simplified] text_inst_def)

lemma tag_dispatch_default:
  assumes "byte_at d beg \<notin> set ''!=^#>/{&:<''" "int (length is) < INT32_MAX"
  shows "tag_dispatch fs (root_state is er d p e) ob beg en
     = Some (Inr (root_state
         (is @ [arg_inst True (ignore_whitespace_fwd d beg) (ignore_whitespace_bwd d (en - 1) + 1)])
         er d p e))"
  using assms
  by (simp add: tag_dispatch_def Let_def tag_arg_def trim_name_def push_root_state arg_inst_def)

lemma tag_dispatch_amp:
  assumes "byte_at d beg = CHR ''&''" "int (length is) < INT32_MAX"
  shows "tag_dispatch fs (root_state is er d p e) ob beg en
     = Some (Inr (root_state
         (is @ [arg_inst False (ignore_whitespace_fwd d (beg + 1))
                  (ignore_whitespace_bwd d (en - 1) + 1)])
         er d p e))"
  using assms
  by (simp add: tag_dispatch_def Let_def tag_arg_def trim_name_def push_root_state arg_inst_def)

lemma tag_dispatch_brace:
  assumes "byte_at d beg = CHR ''{''" "byte_at d p = CHR ''}''" "int (length is) < INT32_MAX"
  shows "tag_dispatch fs (root_state is er d p e) ob beg en
     = Some (Inr (root_state
         (is @ [arg_inst False (ignore_whitespace_fwd d (beg + 1))
                  (ignore_whitespace_bwd d (en - 1) + 1)])
         er d (p + 1) e))"
  using assms
  by (simp add: tag_dispatch_def Let_def tag_arg_def trim_name_def push_root_state arg_inst_def
      new_frame_def byte_at_def set_top_frame_root_state [unfolded new_frame_def, simplified])

lemma root_state_update_l_i [simp]:
  "(root_state is er d p e)\<lparr>l_i := is'\<rparr> = root_state is' er d p e"
  by (simp add: root_state_def)

lemma close_frame_root:
  assumes "d = root_header n @ r" "int (length is) < INT32_MAX" "is \<noteq> []"
  shows "close_frame (root_state is er d p e)
     = Inr ((root_state (closed_template is) er d p e)\<lparr>l_index := 0\<rparr>)"
  using assms
  by (simp add: close_frame_def Let_def new_frame_def root_header_read push_root_state
      closed_template_def)


lemma not_space_chars [simp]:
  "\<not> isspace (CHR ''{'')" "\<not> isspace (CHR ''}'')" "\<not> isspace (CHR ''&'')" "\<not> isspace NUL"
  by (simp_all add: isspace_def NUL_def)

lemma NUL_chars [simp]:
  "CHR ''{'' \<noteq> NUL" "CHR ''}'' \<noteq> NUL" "CHR ''&'' \<noteq> NUL"
  "NUL \<noteq> CHR ''{''" "NUL \<noteq> CHR ''}''" "NUL \<noteq> CHR ''&''"
  by (simp_all add: NUL_def)

text \<open>the data: header, text, tag with sigil sg, rest\<close>

lemma tag_positions:
  assumes d: "d = hdr @ pre @ CHR ''{'' # CHR ''{'' # sg @ x @ CHR ''}'' # CHR ''}'' # rest"
    and hdr: "length hdr = 13"
    and pre: "NUL \<notin> set pre" "CHR ''{'' \<notin> set pre"
    and x: "NUL \<notin> set (sg @ x)" "CHR ''}'' \<notin> set (sg @ x)"
  shows "strstr d 13 ''{{'' = Some (13 + length pre)"
    and "strstr d (13 + length pre + 2) ''}}'' = Some (15 + length pre + length sg + length x)"
    and "byte_at d (15 + length pre) = hd (sg @ x @ ''}'')"
    and "byte_at d (17 + length pre + length sg + length x) = (if rest = [] then NUL else hd rest)"
    and "ignore_whitespace_fwd d (15 + length pre + length sg)
           = 15 + length pre + length sg + length (takeWhile isspace x)"
proof -
  have "strstr (hdr @ pre @ CHR ''{'' # [CHR ''{''] @ (sg @ x @ CHR ''}'' # CHR ''}'' # rest)) 13
          (CHR ''{'' # [CHR ''{'']) = Some (13 + length pre)"
    by (rule strstr_found) (use hdr pre in simp_all)
  then show "strstr d 13 ''{{'' = Some (13 + length pre)" by (simp add: d)
  have "strstr ((hdr @ pre @ ''{{'') @ (sg @ x) @ CHR ''}'' # [CHR ''}''] @ rest)
          (13 + length pre + 2) (CHR ''}'' # [CHR ''}''])
        = Some (13 + length pre + 2 + length (sg @ x))"
    by (rule strstr_found) (use hdr x in simp_all)
  then show "strstr d (13 + length pre + 2) ''}}'' = Some (15 + length pre + length sg + length x)"
    by (simp add: d)
  have eq: "sg @ x @ CHR ''}'' # CHR ''}'' # rest
      = hd (sg @ x @ ''}'') # tl (sg @ x @ ''}'') @ CHR ''}'' # rest"
    by (cases "sg @ x") (auto simp: Cons_eq_append_conv)
  have "byte_at d (15 + length pre)
      = byte_at ((hdr @ pre @ ''{{'') @ (sg @ x @ CHR ''}'' # CHR ''}'' # rest))
          (length (hdr @ pre @ ''{{''))"
    using hdr by (simp add: d add.commute)
  also have "\<dots> = hd (sg @ x @ ''}'')"
    by (subst eq) (rule byte_at_append)
  finally show "byte_at d (15 + length pre) = hd (sg @ x @ ''}'')" .
  show "byte_at d (17 + length pre + length sg + length x) = (if rest = [] then NUL else hd rest)"
    using hdr by (cases rest) (simp_all add: d byte_at_def nth_append)
  have "ignore_whitespace_fwd ((hdr @ pre @ ''{{'' @ sg) @ x @ CHR ''}'' # (CHR ''}'' # rest))
          (15 + length pre + length sg)
        = 15 + length pre + length sg + length (takeWhile isspace x)"
    by (rule ignore_whitespace_fwd_stop) (use hdr in simp_all)
  then show "ignore_whitespace_fwd d (15 + length pre + length sg)
           = 15 + length pre + length sg + length (takeWhile isspace x)"
    by (simp add: d)
qed

lemma tag_end_position:
  assumes d: "d = hdr @ pre @ CHR ''{'' # CHR ''{'' # sg @ x @ CHR ''}'' # CHR ''}'' # rest"
    and hdr: "length hdr = 13"
    and sg: "\<forall>c\<in>set sg. \<not> isspace c"
  shows "ignore_whitespace_bwd d (14 + length pre + length sg + length x)
           = 14 + length pre + length sg + length (rtrim x)"
proof -
  obtain a c where ac: "hdr @ pre @ ''{{'' @ sg = a @ [c]" "\<not> isspace c"
  proof (cases sg rule: rev_cases)
    case Nil
    then have "hdr @ pre @ ''{{'' @ sg = (hdr @ pre @ ''{'') @ [CHR ''{'']" by simp
    then show ?thesis using that by (metis not_space_chars(1))
  next
    case (snoc sg' c)
    then have "hdr @ pre @ ''{{'' @ sg = (hdr @ pre @ ''{{'' @ sg') @ [c]" by simp
    moreover from snoc sg have "\<not> isspace c" by simp
    ultimately show ?thesis using that by blast
  qed
  from ac(1) have "length (hdr @ pre @ ''{{'' @ sg) = length (a @ [c])" by (simp only:)
  with hdr have len: "length a = 14 + length pre + length sg" by simp
  have "ignore_whitespace_bwd (a @ c # x @ (CHR ''}'' # CHR ''}'' # rest)) (length a + length x)
      = length a + length (rtrim x)"
    by (rule ignore_whitespace_bwd_stop) (rule ac(2))
  moreover have "d = (hdr @ pre @ ''{{'' @ sg) @ x @ (CHR ''}'' # CHR ''}'' # rest)"
    by (simp add: d)
  then have "d = a @ c # x @ (CHR ''}'' # CHR ''}'' # rest)"
    by (simp only: ac(1)) simp
  ultimately show ?thesis by (simp add: len)
qed


lemma load_loop_finish:
  assumes "strstr d p ''{{'' = None" "p \<le> e" "d = root_header n @ r" "is \<noteq> []"
    "int (length is) + 1 < INT32_MAX"
  shows "load_loop (Suc (Suc (Suc k))) fs (root_state is er d p e)
     = Some (Inr ((root_state (closed_template (is @ post_text p e)) er d e e)\<lparr>l_index := 0\<rparr>))"
proof (cases "p < e")
  case True
  with assms have "parse_step fs (root_state is er d p e)
     = Some (Inr (root_state (is @ [text_inst p (e - p)]) er d e e))"
    by (simp add: parse_step_text_only)
  moreover have "close_frame (root_state (is @ [text_inst p (e - p)]) er d e e)
     = Inr ((root_state (closed_template (is @ [text_inst p (e - p)])) er d e e)\<lparr>l_index := 0\<rparr>)"
    using assms by (intro close_frame_root) simp_all
  ultimately show ?thesis
    using True by (simp add: new_frame_def post_text_def)
next
  case False
  with assms have "p = e" by simp
  moreover have "close_frame (root_state is er d e e)
     = Inr ((root_state (closed_template is) er d e e)\<lparr>l_index := 0\<rparr>)"
    using assms by (intro close_frame_root) simp_all
  ultimately show ?thesis
    by (simp add: new_frame_def post_text_def)
qed

lemma mustache_load_data:
  assumes "int (length d) \<le> UINT32_MAX"
    and "load_loop fuel fs (root_state [inst0 MUSTACHE_SECTION_START] MUSTACHE_OK
           (root_header (length d) @ d) 13 (13 + length d)) = Some (Inr s')"
  shows "mustache_load fuel fs (data_args d)
     = Some (Some \<lparr>instructions = l_i s', data_seg = l_data s'\<rparr>, MUSTACHE_OK)"
  using assms
  by (simp add: mustache_load_def data_args_def Let_def load_data_root)

lemma load_amp:
  assumes pre: "NUL \<notin> set pre" "CHR ''{'' \<notin> set pre"
    and x: "NUL \<notin> set x" "CHR ''}'' \<notin> set x"
    and post: "CHR ''{'' \<notin> set post"
    and len: "int (length (pre @ ''{{&'' @ x @ ''}}'' @ post)) \<le> UINT32_MAX"
  shows "mustache_load (Suc (Suc (Suc (Suc k)))) fs (data_args (pre @ ''{{&'' @ x @ ''}}'' @ post))
     = Some (Some
         \<lparr>instructions = closed_template
            ([inst0 MUSTACHE_SECTION_START] @ pre_text 13 (13 + length pre)
             @ [arg_inst False (16 + length pre + length (takeWhile isspace x))
                  (16 + length pre + length (rtrim x))]
             @ post_text (18 + length pre + length x)
                 (13 + length (pre @ ''{{&'' @ x @ ''}}'' @ post))),
          data_seg = root_header (length (pre @ ''{{&'' @ x @ ''}}'' @ post))
                     @ pre @ ''{{&'' @ x @ ''}}'' @ post\<rparr>, MUSTACHE_OK)"
proof -
  define T where "T = pre @ ''{{&'' @ x @ ''}}'' @ post"
  define d where "d = root_header (length T) @ T"
  define e where "e = 13 + length T"
  have d: "d = root_header (length T) @ pre @ CHR ''{'' # CHR ''{'' # ''&'' @ x
                 @ CHR ''}'' # CHR ''}'' # post"
    by (simp add: d_def T_def)
  note pos = tag_positions [OF d length_root_header pre, simplified]
  have endp: "ignore_whitespace_bwd d (15 + length pre + length x) = 15 + length pre + length (rtrim x)"
    using tag_end_position [OF d length_root_header] by simp
  have e: "e = 18 + length pre + length x + length post" by (simp add: e_def T_def)
  let ?I0 = "inst0 MUSTACHE_SECTION_START"
  let ?ai = "arg_inst False (16 + length pre + length (takeWhile isspace x))
                  (16 + length pre + length (rtrim x))"
  have step1: "parse_step fs (root_state [?I0] MUSTACHE_OK d 13 e)
     = Some (Inr (root_state ([?I0] @ pre_text 13 (13 + length pre) @ [?ai]) MUSTACHE_OK d
                    (18 + length pre + length x) e))"
  proof -
    have "parse_step fs (root_state [?I0] MUSTACHE_OK d 13 e)
      = tag_dispatch fs (root_state ([?I0] @ pre_text 13 (13 + length pre)) MUSTACHE_OK d
          (16 + length pre + length x + 2) e) (13 + length pre) (13 + length pre + 2)
          (16 + length pre + length x)"
      using pos x e by (intro parse_step_tag) (simp_all add: INT32_MAX_def)
    also have "\<dots> = Some (Inr (root_state ([?I0] @ pre_text 13 (13 + length pre) @ [?ai])
          MUSTACHE_OK d (18 + length pre + length x) e))"
      using pos x endp
      by (simp add: tag_dispatch_amp INT32_MAX_def pre_text_def ac_simps)
    finally show ?thesis .
  qed
  have none: "strstr d (18 + length pre + length x) ''{{'' = None"
  proof -
    have "strstr ((root_header (length T) @ pre @ ''{{&'' @ x @ ''}}'') @ post)
            (18 + length pre + length x) (CHR ''{'' # [CHR ''{'']) = None"
      by (rule strstr_none) (use post in simp_all)
    then show ?thesis by (simp add: d_def T_def)
  qed
  have fin: "load_loop (Suc (Suc (Suc k))) fs
      (root_state ([?I0] @ pre_text 13 (13 + length pre) @ [?ai]) MUSTACHE_OK d
         (18 + length pre + length x) e)
     = Some (Inr ((root_state (closed_template (([?I0] @ pre_text 13 (13 + length pre) @ [?ai])
           @ post_text (18 + length pre + length x) e)) MUSTACHE_OK d e e)\<lparr>l_index := 0\<rparr>))"
    using none by (intro load_loop_finish [where n = "length T" and r = T])
      (simp_all add: e d_def INT32_MAX_def pre_text_def)
  have ll: "load_loop (Suc (Suc (Suc (Suc k)))) fs (root_state [?I0] MUSTACHE_OK d 13 e)
     = Some (Inr ((root_state (closed_template (([?I0] @ pre_text 13 (13 + length pre) @ [?ai])
           @ post_text (18 + length pre + length x) e)) MUSTACHE_OK d e e)\<lparr>l_index := 0\<rparr>))"
    using step1 fin e by (simp add: new_frame_def del: load_loop.simps(2))
      (simp add: load_loop.simps(2) [of "Suc (Suc (Suc k))"] new_frame_def)
  from len have len': "int (length T) \<le> UINT32_MAX" by (simp only: T_def)
  have "mustache_load (Suc (Suc (Suc (Suc k)))) fs (data_args T)
     = Some (Some \<lparr>instructions = l_i ((root_state (closed_template (([?I0] @ pre_text 13 (13 + length pre) @ [?ai])
           @ post_text (18 + length pre + length x) e)) MUSTACHE_OK d e e)\<lparr>l_index := 0\<rparr>),
        data_seg = l_data ((root_state (closed_template (([?I0] @ pre_text 13 (13 + length pre) @ [?ai])
           @ post_text (18 + length pre + length x) e)) MUSTACHE_OK d e e)\<lparr>l_index := 0\<rparr>)\<rparr>,
       MUSTACHE_OK)"
    by (rule mustache_load_data [OF len' ll [unfolded d_def e_def], folded d_def e_def])
  then show ?thesis
    by (simp add: T_def root_state_def d_def e_def)
qed

lemma load_brace:
  assumes pre: "NUL \<notin> set pre" "CHR ''{'' \<notin> set pre"
    and x: "NUL \<notin> set x" "CHR ''}'' \<notin> set x"
    and post: "CHR ''{'' \<notin> set post"
    and len: "int (length (pre @ ''{{{'' @ x @ ''}}}'' @ post)) \<le> UINT32_MAX"
  shows "mustache_load (Suc (Suc (Suc (Suc k)))) fs (data_args (pre @ ''{{{'' @ x @ ''}}}'' @ post))
     = Some (Some
         \<lparr>instructions = closed_template
            ([inst0 MUSTACHE_SECTION_START] @ pre_text 13 (13 + length pre)
             @ [arg_inst False (16 + length pre + length (takeWhile isspace x))
                  (16 + length pre + length (rtrim x))]
             @ post_text (19 + length pre + length x)
                 (13 + length (pre @ ''{{{'' @ x @ ''}}}'' @ post))),
          data_seg = root_header (length (pre @ ''{{{'' @ x @ ''}}}'' @ post))
                     @ pre @ ''{{{'' @ x @ ''}}}'' @ post\<rparr>, MUSTACHE_OK)"
proof -
  define T where "T = pre @ ''{{{'' @ x @ ''}}}'' @ post"
  define d where "d = root_header (length T) @ T"
  define e where "e = 13 + length T"
  have d: "d = root_header (length T) @ pre @ CHR ''{'' # CHR ''{'' # ''{'' @ x
                 @ CHR ''}'' # CHR ''}'' # (CHR ''}'' # post)"
    by (simp add: d_def T_def)
  note pos = tag_positions [OF d length_root_header pre, simplified]
  have endp: "ignore_whitespace_bwd d (15 + length pre + length x) = 15 + length pre + length (rtrim x)"
    using tag_end_position [OF d length_root_header] by simp
  have e: "e = 19 + length pre + length x + length post" by (simp add: e_def T_def)
  let ?I0 = "inst0 MUSTACHE_SECTION_START"
  let ?ai = "arg_inst False (16 + length pre + length (takeWhile isspace x))
                  (16 + length pre + length (rtrim x))"
  have step1: "parse_step fs (root_state [?I0] MUSTACHE_OK d 13 e)
     = Some (Inr (root_state ([?I0] @ pre_text 13 (13 + length pre) @ [?ai]) MUSTACHE_OK d
                    (19 + length pre + length x) e))"
  proof -
    have "parse_step fs (root_state [?I0] MUSTACHE_OK d 13 e)
      = tag_dispatch fs (root_state ([?I0] @ pre_text 13 (13 + length pre)) MUSTACHE_OK d
          (16 + length pre + length x + 2) e) (13 + length pre) (13 + length pre + 2)
          (16 + length pre + length x)"
      using pos x e by (intro parse_step_tag) (simp_all add: INT32_MAX_def)
    also have "\<dots> = Some (Inr (root_state ([?I0] @ pre_text 13 (13 + length pre) @ [?ai])
          MUSTACHE_OK d (16 + length pre + length x + 2 + 1) e))"
      using pos x endp
      by (subst tag_dispatch_brace) (simp_all add: INT32_MAX_def pre_text_def ac_simps)
    finally show ?thesis by (simp add: ac_simps)
  qed
  have none: "strstr d (19 + length pre + length x) ''{{'' = None"
  proof -
    have "strstr ((root_header (length T) @ pre @ ''{{{'' @ x @ ''}}}'') @ post)
            (19 + length pre + length x) (CHR ''{'' # [CHR ''{'']) = None"
      by (rule strstr_none) (use post in simp_all)
    then show ?thesis by (simp add: d_def T_def)
  qed
  have fin: "load_loop (Suc (Suc (Suc k))) fs
      (root_state ([?I0] @ pre_text 13 (13 + length pre) @ [?ai]) MUSTACHE_OK d
         (19 + length pre + length x) e)
     = Some (Inr ((root_state (closed_template (([?I0] @ pre_text 13 (13 + length pre) @ [?ai])
           @ post_text (19 + length pre + length x) e)) MUSTACHE_OK d e e)\<lparr>l_index := 0\<rparr>))"
    using none by (intro load_loop_finish [where n = "length T" and r = T])
      (simp_all add: e d_def INT32_MAX_def pre_text_def)
  have ll: "load_loop (Suc (Suc (Suc (Suc k)))) fs (root_state [?I0] MUSTACHE_OK d 13 e)
     = Some (Inr ((root_state (closed_template (([?I0] @ pre_text 13 (13 + length pre) @ [?ai])
           @ post_text (19 + length pre + length x) e)) MUSTACHE_OK d e e)\<lparr>l_index := 0\<rparr>))"
    using step1 fin e by (simp add: new_frame_def del: load_loop.simps(2))
      (simp add: load_loop.simps(2) [of "Suc (Suc (Suc k))"] new_frame_def)
  from len have len': "int (length T) \<le> UINT32_MAX" by (simp only: T_def)
  have "mustache_load (Suc (Suc (Suc (Suc k)))) fs (data_args T)
     = Some (Some \<lparr>instructions = l_i ((root_state (closed_template (([?I0] @ pre_text 13 (13 + length pre) @ [?ai])
           @ post_text (19 + length pre + length x) e)) MUSTACHE_OK d e e)\<lparr>l_index := 0\<rparr>),
        data_seg = l_data ((root_state (closed_template (([?I0] @ pre_text 13 (13 + length pre) @ [?ai])
           @ post_text (19 + length pre + length x) e)) MUSTACHE_OK d e e)\<lparr>l_index := 0\<rparr>)\<rparr>,
       MUSTACHE_OK)"
    by (rule mustache_load_data [OF len' ll [unfolded d_def e_def], folded d_def e_def])
  then show ?thesis
    by (simp add: T_def root_state_def d_def e_def)
qed

lemma load_plain:
  assumes pre: "NUL \<notin> set pre" "CHR ''{'' \<notin> set pre"
    and x: "NUL \<notin> set x" "CHR ''}'' \<notin> set x"
    and post: "CHR ''{'' \<notin> set post"
    and sigil: "hd (x @ ''}'') \<notin> set ''!=^#>/{&:<''"
    and len: "int (length (pre @ ''{{'' @ x @ ''}}'' @ post)) \<le> UINT32_MAX"
  shows "mustache_load (Suc (Suc (Suc (Suc k)))) fs (data_args (pre @ ''{{'' @ x @ ''}}'' @ post))
     = Some (Some
         \<lparr>instructions = closed_template
            ([inst0 MUSTACHE_SECTION_START] @ pre_text 13 (13 + length pre)
             @ [arg_inst True (15 + length pre + length (takeWhile isspace x))
                  (15 + length pre + length (rtrim x))]
             @ post_text (17 + length pre + length x)
                 (13 + length (pre @ ''{{'' @ x @ ''}}'' @ post))),
          data_seg = root_header (length (pre @ ''{{'' @ x @ ''}}'' @ post))
                     @ pre @ ''{{'' @ x @ ''}}'' @ post\<rparr>, MUSTACHE_OK)"
proof -
  define T where "T = pre @ ''{{'' @ x @ ''}}'' @ post"
  define d where "d = root_header (length T) @ T"
  define e where "e = 13 + length T"
  have d: "d = root_header (length T) @ pre @ CHR ''{'' # CHR ''{'' # [] @ x
                 @ CHR ''}'' # CHR ''}'' # post"
    by (simp add: d_def T_def)
  note pos = tag_positions [OF d length_root_header pre, simplified]
  have endp: "ignore_whitespace_bwd d (14 + length pre + length x) = 14 + length pre + length (rtrim x)"
    using tag_end_position [OF d length_root_header] by simp
  have e: "e = 17 + length pre + length x + length post" by (simp add: e_def T_def)
  let ?I0 = "inst0 MUSTACHE_SECTION_START"
  let ?ai = "arg_inst True (15 + length pre + length (takeWhile isspace x))
                  (15 + length pre + length (rtrim x))"
  have step1: "parse_step fs (root_state [?I0] MUSTACHE_OK d 13 e)
     = Some (Inr (root_state ([?I0] @ pre_text 13 (13 + length pre) @ [?ai]) MUSTACHE_OK d
                    (17 + length pre + length x) e))"
  proof -
    have "parse_step fs (root_state [?I0] MUSTACHE_OK d 13 e)
      = tag_dispatch fs (root_state ([?I0] @ pre_text 13 (13 + length pre)) MUSTACHE_OK d
          (15 + length pre + length x + 2) e) (13 + length pre) (13 + length pre + 2)
          (15 + length pre + length x)"
      using pos x e by (intro parse_step_tag) (simp_all add: INT32_MAX_def)
    also have "\<dots> = Some (Inr (root_state ([?I0] @ pre_text 13 (13 + length pre) @ [?ai])
          MUSTACHE_OK d (17 + length pre + length x) e))"
      using pos x endp sigil
      by (subst tag_dispatch_default) (simp_all add: INT32_MAX_def pre_text_def ac_simps)
    finally show ?thesis .
  qed
  have none: "strstr d (17 + length pre + length x) ''{{'' = None"
  proof -
    have "strstr ((root_header (length T) @ pre @ ''{{'' @ x @ ''}}'') @ post)
            (17 + length pre + length x) (CHR ''{'' # [CHR ''{'']) = None"
      by (rule strstr_none) (use post in simp_all)
    then show ?thesis by (simp add: d_def T_def)
  qed
  have fin: "load_loop (Suc (Suc (Suc k))) fs
      (root_state ([?I0] @ pre_text 13 (13 + length pre) @ [?ai]) MUSTACHE_OK d
         (17 + length pre + length x) e)
     = Some (Inr ((root_state (closed_template (([?I0] @ pre_text 13 (13 + length pre) @ [?ai])
           @ post_text (17 + length pre + length x) e)) MUSTACHE_OK d e e)\<lparr>l_index := 0\<rparr>))"
    using none by (intro load_loop_finish [where n = "length T" and r = T])
      (simp_all add: e d_def INT32_MAX_def pre_text_def)
  have ll: "load_loop (Suc (Suc (Suc (Suc k)))) fs (root_state [?I0] MUSTACHE_OK d 13 e)
     = Some (Inr ((root_state (closed_template (([?I0] @ pre_text 13 (13 + length pre) @ [?ai])
           @ post_text (17 + length pre + length x) e)) MUSTACHE_OK d e e)\<lparr>l_index := 0\<rparr>))"
    using step1 fin e by (simp add: new_frame_def del: load_loop.simps(2))
      (simp add: load_loop.simps(2) [of "Suc (Suc (Suc k))"] new_frame_def)
  from len have len': "int (length T) \<le> UINT32_MAX" by (simp only: T_def)
  have "mustache_load (Suc (Suc (Suc (Suc k)))) fs (data_args T)
     = Some (Some \<lparr>instructions = l_i ((root_state (closed_template (([?I0] @ pre_text 13 (13 + length pre) @ [?ai])
           @ post_text (17 + length pre + length x) e)) MUSTACHE_OK d e e)\<lparr>l_index := 0\<rparr>),
        data_seg = l_data ((root_state (closed_template (([?I0] @ pre_text 13 (13 + length pre) @ [?ai])
           @ post_text (17 + length pre + length x) e)) MUSTACHE_OK d e e)\<lparr>l_index := 0\<rparr>)\<rparr>,
       MUSTACHE_OK)"
    by (rule mustache_load_data [OF len' ll [unfolded d_def e_def], folded d_def e_def])
  then show ?thesis
    by (simp add: T_def root_state_def d_def e_def)
qed

subsection \<open>Names of 65536 bytes\<close>

lemma rtrim_no_space: "\<forall>c\<in>set x. \<not> isspace c \<Longrightarrow> rtrim x = x"
proof -
  assume a: "\<forall>c\<in>set x. \<not> isspace c"
  have "dropWhile isspace (rev x) = rev x"
    using a by (cases "rev x") (auto dest: arg_cong [where f = set])
  then show ?thesis by (simp add: rtrim_def)
qed

lemma takeWhile_no_space: "\<forall>c\<in>set x. \<not> isspace c \<Longrightarrow> takeWhile isspace x = []"
  by (cases x) simp_all

lemma rtrim_replicate_a: "rtrim (replicate n (CHR ''a'')) = replicate n (CHR ''a'')"
  by (rule rtrim_no_space) (simp add: isspace_def)

lemma takeWhile_isspace_replicate_a: "takeWhile isspace (replicate n (CHR ''a'')) = []"
  by (rule takeWhile_no_space) (simp add: isspace_def)

text \<open>
  C8 (names of 2^16 bytes or more fail with \<open>MUSTACHE_ERR_NAME_TOO_LONG\<close>) does not hold
  of the code. The template \<open>{{aaa...a}}\<close> whose variable name has 65536 bytes
  compiles: the loader returns an image and \<open>MUSTACHE_OK\<close>, with whatever the file
  system holds and whenever it is given four turns or more. The variable's
  instruction has the 16-bit \<open>name_len\<close> 0, the length 65536 cut to 16 bits. The only
  place that stores \<open>MUSTACHE_ERR_NAME_TOO_LONG\<close> is the section tag's branch, which
  tests the name's position, not its length, and goes on compiling.
\<close>

theorem long_variable_name_compiles:
  "mustache_load (Suc (Suc (Suc (Suc k)))) fs
      (data_args (''{{'' @ replicate 65536 (CHR ''a'') @ ''}}''))
   = Some (Some
       \<lparr>instructions =
          [(inst0 MUSTACHE_SECTION_START)\<lparr>d_end := 2\<rparr>,
           (inst0 MUSTACHE_WRITE_ARG)\<lparr>d_name_pos := 15, d_name_len := 0\<rparr>,
           inst0 MUSTACHE_SECTION_END],
        data_seg = root_header 65540 @ ''{{'' @ replicate 65536 (CHR ''a'') @ ''}}''\<rparr>,
      MUSTACHE_OK)"
proof -
  have "mustache_load (Suc (Suc (Suc (Suc k)))) fs
      (data_args ([] @ ''{{'' @ replicate 65536 (CHR ''a'') @ ''}}'' @ []))
   = Some (Some
         \<lparr>instructions = closed_template
            ([inst0 MUSTACHE_SECTION_START] @ pre_text 13 (13 + length ([] :: string))
             @ [arg_inst True (15 + length ([] :: string) + length (takeWhile isspace (replicate 65536 (CHR ''a''))))
                  (15 + length ([] :: string) + length (rtrim (replicate 65536 (CHR ''a''))))]
             @ post_text (17 + length ([] :: string) + length (replicate 65536 (CHR ''a'')))
                 (13 + length ([] @ ''{{'' @ replicate 65536 (CHR ''a'') @ ''}}'' @ []))),
          data_seg = root_header (length ([] @ ''{{'' @ replicate 65536 (CHR ''a'') @ ''}}'' @ []))
                     @ [] @ ''{{'' @ replicate 65536 (CHR ''a'') @ ''}}'' @ []\<rparr>, MUSTACHE_OK)"
    by (rule load_plain) (simp_all add: NUL_def UINT32_MAX_def hd_append)
  then show ?thesis
    by (simp add: rtrim_replicate_a isspace_def closed_template_def
        pre_text_def post_text_def arg_inst_def)
qed

end
